theory Spec2Isabelle
  imports Complex_Main "HOL-Library.List_Lexorder"
begin


section \<open>Python strings\<close>

text \<open>
  A Python \<open>str\<close> is a sequence of Unicode code points, so it is modelled as a list of
  natural numbers (\<open>ord(c)\<close> of each character), not as a HOL \<open>string\<close>, whose
  characters are bytes. \<open>U\<close> turns an ASCII literal into that representation.
\<close>

type_synonym ustr = "nat list"

definition U :: "string \<Rightarrow> ustr" where
  "U s = map of_char s"

text \<open>
  \<open>str.isspace\<close> for one character, which is also what \<open>\s\<close> matches in a \<open>str\<close>
  pattern of \<open>re\<close> and what \<open>str.strip()\<close> removes: U+0009..U+000D, U+001C..U+0020,
  U+0085, U+00A0, U+1680, U+2000..U+200A, U+2028, U+2029, U+202F, U+205F, U+3000.
\<close>

definition isspace :: "nat \<Rightarrow> bool" where
  "isspace c \<longleftrightarrow>
     (9 \<le> c \<and> c \<le> 13) \<or> (28 \<le> c \<and> c \<le> 32) \<or> c = 133 \<or> c = 160 \<or> c = 5760 \<or>
     (8192 \<le> c \<and> c \<le> 8202) \<or> c = 8232 \<or> c = 8233 \<or> c = 8239 \<or> c = 8287 \<or> c = 12288"

text \<open>\<open>str.lstrip()\<close>, \<open>str.rstrip()\<close> and \<open>str.strip()\<close> without arguments.\<close>

definition lstrip :: "ustr \<Rightarrow> ustr" where
  "lstrip s = dropWhile isspace s"

definition rstrip :: "ustr \<Rightarrow> ustr" where
  "rstrip s = rev (dropWhile isspace (rev s))"

definition strip :: "ustr \<Rightarrow> ustr" where
  "strip s = rstrip (lstrip s)"

text \<open>
  \<open>s.replace(old, new)\<close> where \<open>old\<close> is a single character, as every key of the
  sanitizer's replacement table is.
\<close>

definition str_replace :: "nat \<Rightarrow> ustr \<Rightarrow> ustr \<Rightarrow> ustr" where
  "str_replace old new s = concat (map (\<lambda>c. if c = old then new else [c]) s)"

section \<open>The text sanitizer (whisper\_cli.py, sanitize\_for\_json)\<close>

text \<open>
  The character class of the first \<open>re.sub\<close>:
  \<open>[\x00-\x08\x0b\x0c\x0e-\x1f\x7f-\x9f]\<close>. Each match is replaced by one space.
\<close>

definition is_control :: "nat \<Rightarrow> bool" where
  "is_control c \<longleftrightarrow> c \<le> 8 \<or> c = 11 \<or> c = 12 \<or> (14 \<le> c \<and> c \<le> 31) \<or> (127 \<le> c \<and> c \<le> 159)"

definition sub_control :: "ustr \<Rightarrow> ustr" where
  "sub_control s = map (\<lambda>c. if is_control c then 32 else c) s"

text \<open>
  The dictionary \<open>replacements\<close>, in insertion order (the order \<open>items()\<close> iterates in):
  en dash, em dash, the four curly quotes, the ellipsis and the non-breaking space.
\<close>

definition replacements :: "(nat \<times> ustr) list" where
  "replacements =
     [(8211, U ''-''), (8212, U ''--''), (8216, [39]), (8217, [39]),
      (8220, [34]), (8221, [34]), (8230, U ''...''), (160, U '' '')]"

definition apply_replacements :: "ustr \<Rightarrow> ustr" where
  "apply_replacements s = fold (\<lambda>(old, new) t. str_replace old new t) replacements s"

text \<open>
  The two allow-lists of accented letters, as the code points of the string literals
  in the source: U+00E0..U+00EF, U+00F1..U+00F6, U+00F8..U+00FD and the same
  letters in upper case, U+00C0..U+00CF, U+00D1..U+00D6, U+00D8..U+00DD.
\<close>

definition accents_lower :: "nat list" where
  "accents_lower =
     [224, 225, 226, 227, 228, 229, 230, 231, 232, 233, 234, 235, 236, 237, 238, 239,
      241, 242, 243, 244, 245, 246, 248, 249, 250, 251, 252, 253]"

definition accents_upper :: "nat list" where
  "accents_upper =
     [192, 193, 194, 195, 196, 197, 198, 199, 200, 201, 202, 203, 204, 205, 206, 207,
      209, 210, 211, 212, 213, 214, 216, 217, 218, 219, 220, 221]"

text \<open>
  \<open>c.isprintable()\<close> is only ever read together with \<open>ord(c) < 127\<close>. Below 127
  the printable characters are exactly U+0020..U+007E, and that is all this predicate
  says: it is \<open>str.isprintable\<close> on the code points the conjunction lets through, and
  false elsewhere.
\<close>

definition isprintable :: "nat \<Rightarrow> bool" where
  "isprintable c \<longleftrightarrow> 32 \<le> c \<and> c < 127"

text \<open>
  The condition of the generator expression that keeps the safe characters:
  \<open>(c.isprintable() and ord(c) < 127) or c in '...' or c in '...' or c in '\n\r\t '\<close>.
\<close>

definition keep_char :: "nat \<Rightarrow> bool" where
  "keep_char c \<longleftrightarrow>
     (isprintable c \<and> c < 127) \<or> c \<in> set accents_lower \<or> c \<in> set accents_upper \<or>
     c \<in> set [10, 13, 9, 32]"

text \<open>
  \<open>re.sub(r'\s+', ' ', text)\<close>: every maximal run of whitespace becomes one space.
\<close>

function collapse_ws :: "ustr \<Rightarrow> ustr" where
  "collapse_ws [] = []"
| "collapse_ws (c # cs) =
     (if isspace c then 32 # collapse_ws (dropWhile isspace cs) else c # collapse_ws cs)"
  by pat_completeness auto
termination
  by (relation "measure length") (auto simp: length_dropWhile_le less_Suc_eq_le)

text \<open>
  The sanitizer. \<open>unicodedata.normalize('NFKD', text)\<close> is a call into the Python
  standard library, whose table is not part of this program: the normalizer is the
  parameter \<open>nfkd\<close>, and each theorem says which property of it it relies on.
\<close>

definition sanitize_for_json :: "(ustr \<Rightarrow> ustr) \<Rightarrow> ustr \<Rightarrow> ustr" where
  "sanitize_for_json nfkd text =
     strip (collapse_ws (filter keep_char (apply_replacements (sub_control (nfkd text)))))"

subsection \<open>What the sanitizer relies on in the normalizer\<close>

text \<open>
  \<open>plain\<close> characters are the printable ASCII characters and the four allow-listed
  letters that Unicode does not decompose (U+00C6, U+00D8, U+00E6, U+00F8).
\<close>

definition plain :: "nat \<Rightarrow> bool" where
  "plain c \<longleftrightarrow> (32 \<le> c \<and> c < 127) \<or> c = 198 \<or> c = 216 \<or> c = 230 \<or> c = 248"

text \<open>
  Two properties of NFKD that the theorems below name as hypotheses. A string of plain
  characters is already in NFKD, so normalizing leaves it as it is; and a normalized
  string holds no precomposed letter, so the only allow-listed accented letters it can
  hold are the four without a decomposition.
\<close>

definition nfkd_fixes_plain :: "(ustr \<Rightarrow> ustr) \<Rightarrow> bool" where
  "nfkd_fixes_plain nfkd \<longleftrightarrow> (\<forall>s. (\<forall>c\<in>set s. plain c) \<longrightarrow> nfkd s = s)"

definition nfkd_decomposed :: "(ustr \<Rightarrow> ustr) \<Rightarrow> bool" where
  "nfkd_decomposed nfkd \<longleftrightarrow>
     (\<forall>s. \<forall>c\<in>set (nfkd s). c \<in> set accents_lower \<union> set accents_upper \<longrightarrow> c \<in> {198, 216, 230, 248})"



text \<open>
  A string is single-spaced when its only whitespace character is U+0020 and no two of
  them are adjacent: the shape \<open>re.sub(r'\s+', ' ', text)\<close> produces.
\<close>

fun single_spaced :: "ustr \<Rightarrow> bool" where
  "single_spaced [] = True"
| "single_spaced [c] = (isspace c \<longrightarrow> c = 32)"
| "single_spaced (c # d # cs) = ((isspace c \<longrightarrow> c = 32 \<and> \<not> isspace d) \<and> single_spaced (d # cs))"

subsection \<open>A concrete normalizer for the code points up to U+00FF\<close>

text \<open>
  The NFKD decompositions of the code points U+0000..U+00FF, from the Unicode
  character database (the 67 code points of that range that have one). \<open>nfkd_latin1\<close>
  decomposes character by character; on strings over U+0000..U+00FF that is NFKD (no
  two combining marks become adjacent, so nothing is reordered). Code points beyond
  U+00FF are left as they are, so it serves to run the sanitizer on concrete strings of
  that range, not as a model of the library on all of Unicode.
\<close>

definition nfkd_table_latin1 :: "(nat \<times> ustr) list" where
  "nfkd_table_latin1 =
     [(160, [32]), (168, [32, 776]), (170, [97]), (175, [32, 772]), (178, [50]), (179, [51]),
      (180, [32, 769]), (181, [956]), (184, [32, 807]), (185, [49]), (186, [111]),
      (188, [49, 8260, 52]), (189, [49, 8260, 50]), (190, [51, 8260, 52]),
      (192, [65, 768]), (193, [65, 769]), (194, [65, 770]), (195, [65, 771]), (196, [65, 776]),
      (197, [65, 778]), (199, [67, 807]), (200, [69, 768]), (201, [69, 769]), (202, [69, 770]),
      (203, [69, 776]), (204, [73, 768]), (205, [73, 769]), (206, [73, 770]), (207, [73, 776]),
      (209, [78, 771]), (210, [79, 768]), (211, [79, 769]), (212, [79, 770]), (213, [79, 771]),
      (214, [79, 776]), (217, [85, 768]), (218, [85, 769]), (219, [85, 770]), (220, [85, 776]),
      (221, [89, 769]), (224, [97, 768]), (225, [97, 769]), (226, [97, 770]), (227, [97, 771]),
      (228, [97, 776]), (229, [97, 778]), (231, [99, 807]), (232, [101, 768]), (233, [101, 769]),
      (234, [101, 770]), (235, [101, 776]), (236, [105, 768]), (237, [105, 769]), (238, [105, 770]),
      (239, [105, 776]), (241, [110, 771]), (242, [111, 768]), (243, [111, 769]), (244, [111, 770]),
      (245, [111, 771]), (246, [111, 776]), (249, [117, 768]), (250, [117, 769]), (251, [117, 770]),
      (252, [117, 776]), (253, [121, 769]), (255, [121, 776])]"

definition decomp_latin1 :: "nat \<Rightarrow> ustr" where
  "decomp_latin1 c = (case map_of nfkd_table_latin1 c of None \<Rightarrow> [c] | Some d \<Rightarrow> d)"

definition nfkd_latin1 :: "ustr \<Rightarrow> ustr" where
  "nfkd_latin1 s = concat (map decomp_latin1 s)"

section \<open>Numbers\<close>

text \<open>
  Python's \<open>float\<close> values are modelled as exact real numbers: durations, progress
  fractions and time stamps are of type \<open>real\<close>, and \<open>/\<close>, \<open>*\<close>, \<open>//\<close> and \<open>%\<close> are the
  exact operations. \<open>int(x)\<close> truncates towards zero; \<open>x // y\<close> is the floor of the
  quotient, still a float; \<open>x % y\<close> is what is left of \<open>x\<close> after \<open>x // y\<close> times \<open>y\<close>.
\<close>

definition py_int :: "real \<Rightarrow> int" where
  "py_int x = (if 0 \<le> x then \<lfloor>x\<rfloor> else \<lceil>x\<rceil>)"

definition py_floordiv :: "real \<Rightarrow> real \<Rightarrow> real" where
  "py_floordiv x y = of_int \<lfloor>x / y\<rfloor>"

definition py_mod :: "real \<Rightarrow> real \<Rightarrow> real" where
  "py_mod x y = x - y * of_int \<lfloor>x / y\<rfloor>"

section \<open>The progress estimator (whisper\_cli.py, simulate\_progress)\<close>

text \<open>
  The table \<open>time_multipliers\<close> and the lookup \<open>time_multipliers.get(model_name, 0.5)\<close>.
\<close>

definition time_multipliers :: "(ustr \<times> real) list" where
  "time_multipliers =
     [(U ''tiny'', 1 / 10), (U ''base'', 2 / 10), (U ''small'', 4 / 10), (U ''medium'', 8 / 10),
      (U ''large'', 15 / 10)]"

definition multiplier :: "ustr \<Rightarrow> real" where
  "multiplier model_name =
     (case map_of time_multipliers model_name of None \<Rightarrow> 5 / 10 | Some m \<Rightarrow> m)"

text \<open>
  \<open>expected_time = len(audio) / 16000 * time_multipliers.get(model_name, 0.5)\<close>, from the
  number of audio samples, and \<open>steps = max(10, int(expected_time / 5))\<close>.
\<close>

definition expected_time :: "nat \<Rightarrow> ustr \<Rightarrow> real" where
  "expected_time n_samples model_name = of_nat n_samples / 16000 * multiplier model_name"

definition sim_steps :: "nat \<Rightarrow> ustr \<Rightarrow> int" where
  "sim_steps n_samples model_name = max 10 (py_int (expected_time n_samples model_name / 5))"

text \<open>
  The body of the loop: \<open>raw_progress = i / steps\<close> and
  \<open>simulation_progress = raw_progress * (2 - raw_progress)\<close>.
\<close>

definition ease_out :: "int \<Rightarrow> nat \<Rightarrow> real" where
  "ease_out steps i = (let raw_progress = of_nat i / of_int steps in raw_progress * (2 - raw_progress))"

text \<open>
  \<open>for i in range(steps)\<close>, leaving the loop as soon as \<open>transcription_done\<close> is read as
  true. The flag is written by the main thread, so what the loop reads at iteration \<open>i\<close>
  is an input of the model, \<open>flag i\<close>. The result is the list of the values passed to
  \<open>progress_callback\<close>, in order.
\<close>

function simulate_loop :: "(nat \<Rightarrow> bool) \<Rightarrow> int \<Rightarrow> nat \<Rightarrow> real list" where
  "simulate_loop flag steps i =
     (if int i < steps then
        (if flag i then [] else ease_out steps i # simulate_loop flag steps (Suc i))
      else [])"
  by pat_completeness auto
termination
  by (relation "measure (\<lambda>(flag, steps, i). nat (steps - int i))") auto

declare simulate_loop.simps [simp del]

definition simulate_progress :: "(nat \<Rightarrow> bool) \<Rightarrow> nat \<Rightarrow> ustr \<Rightarrow> real list" where
  "simulate_progress flag n_samples model_name =
     simulate_loop flag (sim_steps n_samples model_name) 0"

text \<open>
  The \<open>progress\<close> field of the record \<open>progress_callback\<close> prints:
  \<open>50 + int(progress * 40)\<close>. (Its status text holds the elapsed wall-clock time and is
  not modelled.)
\<close>

definition progress_percent :: "real \<Rightarrow> int" where
  "progress_percent progress = 50 + py_int (progress * 40)"

definition emitted_percentages :: "(nat \<Rightarrow> bool) \<Rightarrow> nat \<Rightarrow> ustr \<Rightarrow> int list" where
  "emitted_percentages flag n_samples model_name =
     map progress_percent (simulate_progress flag n_samples model_name)"

text \<open>
  The estimator as the specification words it: the number of steps is the larger of 10
  and one step for every five seconds of estimated work.
\<close>

definition spec_steps :: "real \<Rightarrow> real \<Rightarrow> int" where
  "spec_steps d m = max 10 \<lfloor>d * m / 5\<rfloor>"

section \<open>Subtitle formats (video\_transcriber.py)\<close>

text \<open>
  Decimal formatting of integers: \<open>str(n)\<close>, and the format specification \<open>0wd\<close>
  (sign first, then zeros up to the width \<open>w\<close>), as in \<open>f"{hours:02d}"\<close>.
\<close>

fun digits :: "nat \<Rightarrow> ustr" where
  "digits n = (if n < 10 then [48 + n] else digits (n div 10) @ [48 + n mod 10])"

declare digits.simps [simp del]

definition str_int :: "int \<Rightarrow> ustr" where
  "str_int n = (if n < 0 then 45 # digits (nat (- n)) else digits (nat n))"

definition zero_pad :: "nat \<Rightarrow> ustr \<Rightarrow> ustr" where
  "zero_pad w ds = replicate (w - length ds) 48 @ ds"

definition format_0d :: "nat \<Rightarrow> int \<Rightarrow> ustr" where
  "format_0d w n =
     (if n < 0 then 45 # zero_pad (w - 1) (digits (nat (- n))) else zero_pad w (digits (nat n)))"

text \<open>
  \<open>format_time\<close> and \<open>format_time_vtt\<close>: hours, minutes, seconds and milliseconds of a
  time in seconds, as \<open>HH:MM:SS,mmm\<close> and \<open>HH:MM:SS.mmm\<close>.
\<close>

definition format_time :: "real \<Rightarrow> ustr" where
  "format_time seconds =
     (let hours = py_int (py_floordiv seconds 3600);
          minutes = py_int (py_floordiv (py_mod seconds 3600) 60);
          secs = py_int (py_mod seconds 60);
          millis = py_int (py_mod seconds 1 * 1000)
      in format_0d 2 hours @ U '':'' @ format_0d 2 minutes @ U '':'' @ format_0d 2 secs @
         U '','' @ format_0d 3 millis)"

definition format_time_vtt :: "real \<Rightarrow> ustr" where
  "format_time_vtt seconds =
     (let hours = py_int (py_floordiv seconds 3600);
          minutes = py_int (py_floordiv (py_mod seconds 3600) 60);
          secs = py_int (py_mod seconds 60);
          millis = py_int (py_mod seconds 1 * 1000)
      in format_0d 2 hours @ U '':'' @ format_0d 2 minutes @ U '':'' @ format_0d 2 secs @
         U ''.'' @ format_0d 3 millis)"

text \<open>
  The result of the model call as \<open>save_transcription\<close> reads it: the keys \<open>text\<close> and
  \<open>segments\<close> (each segment with \<open>start\<close>, \<open>end\<close> and \<open>text\<close>), and \<open>language\<close>.
\<close>

record segment =
  seg_start :: real
  seg_end :: real
  seg_text :: ustr

record transcription =
  r_text :: ustr
  r_language :: ustr
  r_segments :: "segment list"

text \<open>
  \<open>save_transcription\<close> writes one file; the model returns what it writes, and \<open>None\<close>
  when \<open>format_type\<close> is none of the four tags, in which case no file is opened. The
  line feed is code point 10. \<open>json.dump(result, f, indent=2, ensure_ascii=False)\<close> is a
  library call on the whole result and is the parameter \<open>json_dump\<close>.
\<close>

definition srt_entry :: "nat \<times> segment \<Rightarrow> ustr" where
  "srt_entry e =
     (case e of (i, seg) \<Rightarrow>
        (let start_time = format_time (seg_start seg);
             end_time = format_time (seg_end seg);
             txt = strip (seg_text seg)
         in str_int (int i) @ [10] @ start_time @ U '' --> '' @ end_time @ [10] @ txt @ [10, 10]))"

definition vtt_entry :: "segment \<Rightarrow> ustr" where
  "vtt_entry seg =
     (let start_time = format_time_vtt (seg_start seg);
          end_time = format_time_vtt (seg_end seg);
          txt = strip (seg_text seg)
      in start_time @ U '' --> '' @ end_time @ [10] @ txt @ [10, 10])"

definition enumerate_from :: "nat \<Rightarrow> 'a list \<Rightarrow> (nat \<times> 'a) list" where
  "enumerate_from k xs = zip [k..<k + length xs] xs"

definition save_transcription :: "(transcription \<Rightarrow> ustr) \<Rightarrow> transcription \<Rightarrow> ustr \<Rightarrow> ustr option" where
  "save_transcription json_dump result format_type =
     (if format_type = U ''txt'' then Some (r_text result)
      else if format_type = U ''srt'' then
        Some (concat (map srt_entry (enumerate_from 1 (r_segments result))))
      else if format_type = U ''vtt'' then
        Some (U ''WEBVTT'' @ [10, 10] @ concat (map vtt_entry (r_segments result)))
      else if format_type = U ''json'' then Some (json_dump result)
      else None)"

section \<open>The result delivery channel (whisper\_cli.py, the end of transcribe\_video)\<close>

text \<open>
  Exceptions are values: \<open>Exn msg\<close> is an instance of Python's \<open>Exception\<close> whose \<open>str(e)\<close>
  is \<open>msg\<close>. A call that can raise returns \<open>exn + 'a\<close>, with \<open>Inl\<close> for the raise.
\<close>

datatype exn = Exn ustr

fun exn_message :: "exn \<Rightarrow> ustr" where
  "exn_message (Exn msg) = msg"

text \<open>
  The dictionary \<open>final_result\<close>, with its keys in insertion order. \<open>saved_file\<close> is only
  there when the transcription file was written. \<open>duration\<close> is a float.
\<close>

record final_result =
  fr_text :: ustr
  fr_language :: ustr
  fr_timestamp :: ustr
  fr_model :: ustr
  fr_duration :: real
  fr_saved_file :: "ustr option"

subsection \<open>json.dumps(final\_result, ensure\_ascii=False)\<close>

text \<open>
  How \<open>json.dumps\<close> writes a string when \<open>ensure_ascii\<close> is false: between double
  quotes, with the quote, the backslash and the control characters below U+0020
  escaped (\<open>\n\<close>, \<open>\r\<close>, \<open>\t\<close>, \<open>\b\<close>, \<open>\f\<close>, and \<open>\u00XX\<close> for the others), and every other
  character as it is. The backslash is code point 92 and the double quote 34.
\<close>

definition hex_digit :: "nat \<Rightarrow> nat" where
  "hex_digit d = (if d < 10 then 48 + d else 87 + d)"

definition json_escape_char :: "nat \<Rightarrow> ustr" where
  "json_escape_char c =
     (if c = 34 then [92, 34] else if c = 92 then [92, 92]
      else if c = 10 then [92, 110] else if c = 13 then [92, 114] else if c = 9 then [92, 116]
      else if c = 8 then [92, 98] else if c = 12 then [92, 102]
      else if c < 32 then [92, 117, 48, 48, hex_digit (c div 16), hex_digit (c mod 16)]
      else [c])"

definition json_string :: "ustr \<Rightarrow> ustr" where
  "json_string s = [34] @ concat (map json_escape_char s) @ [34]"

text \<open>
  The whole object, with the default separators \<open>", "\<close> and \<open>": "\<close>. How a float is
  written (\<open>float.__repr__\<close>) is the parameter \<open>float_repr\<close>.
\<close>

definition json_dumps :: "(real \<Rightarrow> ustr) \<Rightarrow> final_result \<Rightarrow> ustr" where
  "json_dumps float_repr r =
     U ''{'' @ json_string (U ''text'') @ U '': '' @ json_string (fr_text r) @
     U '', '' @ json_string (U ''language'') @ U '': '' @ json_string (fr_language r) @
     U '', '' @ json_string (U ''timestamp'') @ U '': '' @ json_string (fr_timestamp r) @
     U '', '' @ json_string (U ''model'') @ U '': '' @ json_string (fr_model r) @
     U '', '' @ json_string (U ''duration'') @ U '': '' @ float_repr (fr_duration r) @
     (case fr_saved_file r of
        None \<Rightarrow> []
      | Some path \<Rightarrow> U '', '' @ json_string (U ''saved_file'') @ U '': '' @ json_string path) @
     U ''}''"

subsection \<open>str.encode('utf-8')\<close>

text \<open>
  Bytes are natural numbers below 256. A code point is encoded in one to four bytes;
  a surrogate code point (U+D800..U+DFFF), which a Python string can hold, makes
  \<open>encode\<close> raise \<open>UnicodeEncodeError\<close>. (A Python string holds no code point above
  U+10FFFF; the model raises there too.) The message of the real exception also names
  the codec, the character and its position; the model keeps its reason.
\<close>

definition utf8_char :: "nat \<Rightarrow> nat list option" where
  "utf8_char c =
     (if c < 128 then Some [c]
      else if c < 2048 then Some [192 + c div 64, 128 + c mod 64]
      else if c < 65536 then
        (if 55296 \<le> c \<and> c < 57344 then None
         else Some [224 + c div 4096, 128 + c div 64 mod 64, 128 + c mod 64])
      else if c < 1114112 then
        Some [240 + c div 262144, 128 + c div 4096 mod 64, 128 + c div 64 mod 64, 128 + c mod 64]
      else None)"

definition UnicodeEncodeError :: exn where
  "UnicodeEncodeError = Exn (U ''surrogates not allowed'')"

fun utf8_encode :: "ustr \<Rightarrow> exn + nat list" where
  "utf8_encode [] = Inr []"
| "utf8_encode (c # cs) =
     (case utf8_char c of
        None \<Rightarrow> Inl UnicodeEncodeError
      | Some bs \<Rightarrow> (case utf8_encode cs of Inl e \<Rightarrow> Inl e | Inr rest \<Rightarrow> Inr (bs @ rest)))"

subsection \<open>base64.b64encode(...).decode('ascii')\<close>

text \<open>
  The standard alphabet: \<open>A\<close>..\<open>Z\<close>, \<open>a\<close>..\<open>z\<close>, \<open>0\<close>..\<open>9\<close>, \<open>+\<close> and \<open>/\<close>, with \<open>=\<close> (code
  point 61) as padding, three bytes to four characters, no line breaks.
\<close>

definition b64_char :: "nat \<Rightarrow> nat" where
  "b64_char v =
     (if v < 26 then 65 + v else if v < 52 then 71 + v else if v < 62 then v - 4
      else if v = 62 then 43 else 47)"

fun b64encode :: "nat list \<Rightarrow> ustr" where
  "b64encode [] = []"
| "b64encode [a] = [b64_char (a div 4), b64_char (a mod 4 * 16), 61, 61]"
| "b64encode [a, b] =
     [b64_char (a div 4), b64_char (a mod 4 * 16 + b div 16), b64_char (b mod 16 * 4), 61]"
| "b64encode (a # b # c # rest) =
     [b64_char (a div 4), b64_char (a mod 4 * 16 + b div 16),
      b64_char (b mod 16 * 4 + c div 64), b64_char (c mod 64)] @ b64encode rest"

subsection \<open>The delivery line\<close>

definition delimiter :: ustr where
  "delimiter = U ''===TRANSCRIPTION_RESULT_B64===''"

text \<open>
  The body of the last \<open>try\<close> block up to the \<open>print\<close>: the line that is printed, or the
  exception that takes the \<open>except\<close> branch instead.
\<close>

definition delivery_line :: "(real \<Rightarrow> ustr) \<Rightarrow> final_result \<Rightarrow> exn + ustr" where
  "delivery_line float_repr r =
     (let json_str = json_dumps float_repr r in
      case utf8_encode json_str of
        Inl e \<Rightarrow> Inl e
      | Inr json_bytes \<Rightarrow>
          (let json_base64 = b64encode json_bytes in Inr (delimiter @ json_base64 @ delimiter)))"

subsection \<open>The receiving side\<close>








subsection \<open>Code points that UTF-8 can encode, and two results for concrete runs\<close>


definition sample_result :: final_result where
  "sample_result =
     \<lparr>fr_text = U ''hi'', fr_language = U ''en'', fr_timestamp = U ''2024-01-01T00:00:00'',
      fr_model = U ''base'', fr_duration = 2, fr_saved_file = None\<rparr>"


text \<open>
  For these two results the only float is 2.0, which \<open>repr\<close> writes as \<open>2.0\<close>; and a
  parser that reads back the one JSON text of \<open>sample_result\<close> is enough to run the
  receiving side on it.
\<close>

definition repr_sample :: "real \<Rightarrow> ustr" where
  "repr_sample x = U ''2.0''"


section \<open>The batch entry point (whisper\_cli.py)\<close>

text \<open>
  What the main thread does that can be seen from outside, in order: the progress
  records and the payload line it prints on standard output, what it logs, and its calls
  into the model library and the file system. The status of a progress record is kept as
  a constructor with the values its f-string interpolates:

  \<^item> \<open>Using_device d\<close>: \<open>Using device: {device}\<close>; \<open>Gpu n m\<close>: \<open>GPU: {gpu_name} ({gpu_memory:.1f} GB)\<close>
  \<^item> \<open>Starting m\<close>: \<open>Starting transcription: {model_name} model\<close>
  \<^item> \<open>Loading_model\<close>: \<open>Loading model...\<close>; \<open>Model_loaded\<close>: \<open>Model loaded, detecting audio...\<close>
  \<^item> \<open>Audio_loaded d t\<close>: \<open>Audio loaded ({format_time(duration)}), estimated time: {format_time(estimated_time)}\<close>
  \<^item> \<open>Finalizing\<close>: \<open>Finalizing transcription...\<close>
  \<^item> \<open>No_result\<close>: \<open>Error: No transcription result\<close>; \<open>Empty_result\<close>: \<open>Error: Empty transcription result\<close>
  \<^item> \<open>Saved f\<close>: \<open>Saved transcription to {json_filename}\<close>
  \<^item> \<open>Error_saving_file m\<close>: \<open>Error saving file: {str(e)}\<close>
  \<^item> \<open>Error_formatting_result m\<close>: \<open>Error formatting result: {str(e)}\<close>
  \<^item> \<open>Error m\<close>: \<open>Error: {str(e)}\<close>
\<close>

datatype status =
    Using_device ustr
  | Gpu ustr real
  | Starting ustr
  | Loading_model
  | Model_loaded
  | Audio_loaded real real
  | Finalizing
  | No_result
  | Empty_result
  | Saved ustr
  | Error_saving_file ustr
  | Error_formatting_result ustr
  | Error ustr

fun is_error_status :: "status \<Rightarrow> bool" where
  "is_error_status No_result = True"
| "is_error_status Empty_result = True"
| "is_error_status (Error_saving_file m) = True"
| "is_error_status (Error_formatting_result m) = True"
| "is_error_status (Error m) = True"
| "is_error_status _ = False"

datatype event =
    Progress int status
  | Payload ustr
  | Log_error ustr
  | Log_info ustr
  | Call_load_model ustr
  | Call_load_audio ustr
  | Thread_start
  | Call_transcribe
  | File_write

fun is_payload :: "event \<Rightarrow> bool" where
  "is_payload (Payload line) = True"
| "is_payload _ = False"

text \<open>
  The result of \<open>model.transcribe\<close> as this program reads it: a dictionary in which the
  keys \<open>text\<close> and \<open>language\<close> may be missing (\<open>result.get\<close>). A result that is falsy
  (\<open>None\<close> or an empty dictionary) is \<open>None\<close> in the model.
\<close>

record whisper_result =
  w_text :: "ustr option"
  w_language :: "ustr option"

text \<open>
  Everything the run takes from outside the program: whether CUDA is there (with the
  GPU's name and memory), what the calls into the model library do (raise, or return),
  whether the block that writes the transcription file raises or completes, with the
  path and the name of the file it wrote, the clock, and the two library functions of
  the earlier sections.
\<close>

record batch_env =
  b_gpu :: "(ustr \<times> real) option"
  b_load_model :: "ustr \<Rightarrow> exn option"
  b_load_audio :: "ustr \<Rightarrow> exn + nat"
  b_transcribe :: "exn + whisper_result option"
  b_write_file :: "final_result \<Rightarrow> exn + ustr \<times> ustr"
  b_now_isoformat :: ustr
  b_float_repr :: "real \<Rightarrow> ustr"
  b_nfkd :: "ustr \<Rightarrow> ustr"

record args =
  a_video_path :: ustr
  a_model :: ustr
  a_language :: "ustr option"

text \<open>
  The block that saves the transcription file (\<open>try\<close> ... \<open>except Exception\<close>): on success
  the path is added to the result and a record with progress 95 is printed; on failure
  the error is logged and a record with progress 0 is printed.
\<close>

definition save_block :: "batch_env \<Rightarrow> final_result \<Rightarrow> event list \<times> final_result" where
  "save_block env final_result =
     (case b_write_file env final_result of
        Inr (json_filepath, json_filename) \<Rightarrow>
          ([File_write, Progress 95 (Saved json_filename)],
           final_result\<lparr>fr_saved_file := Some json_filepath\<rparr>)
      | Inl e \<Rightarrow>
          ([File_write, Log_error (U ''Error saving transcription file: '' @ exn_message e),
            Progress 0 (Error_saving_file (exn_message e))],
           final_result))"

text \<open>
  The block that sends the result (\<open>try\<close> ... \<open>except Exception\<close>): the two log lines and
  the payload line, or, when building the line raises, the error logged and a record
  with progress 0.
\<close>

definition send_block :: "batch_env \<Rightarrow> final_result \<Rightarrow> event list" where
  "send_block env final_result =
     (case delivery_line (b_float_repr env) final_result of
        Inr line \<Rightarrow>
          [Log_info (U ''Sending transcription result (length: '' @
             str_int (int (length (fr_text final_result))) @ U '' chars)''),
           Log_info (U ''Base64 JSON length: '' @
             str_int (int (length line) - 2 * int (length delimiter)) @ U '' chars''),
           Payload line]
      | Inl e \<Rightarrow>
          [Log_error (U ''Error formatting result: '' @ exn_message e),
           Progress 0 (Error_formatting_result (exn_message e))])"

text \<open>
  The dictionary \<open>final_result\<close> as it is first built, from the sanitized text.
\<close>

definition make_final_result ::
  "batch_env \<Rightarrow> args \<Rightarrow> real \<Rightarrow> whisper_result \<Rightarrow> ustr \<Rightarrow> final_result" where
  "make_final_result env a duration res txt =
     \<lparr>fr_text = txt,
      fr_language = (case w_language res of None \<Rightarrow> U ''unknown'' | Some l \<Rightarrow> l),
      fr_timestamp = b_now_isoformat env,
      fr_model = a_model a,
      fr_duration = duration,
      fr_saved_file = None\<rparr>"

text \<open>
  What follows the model call when it returns: the two early returns with an error
  record, then sanitizing, the final result, the save block and the send block.
\<close>

definition raw_text :: "whisper_result \<Rightarrow> ustr" where
  "raw_text res = strip (case w_text res of None \<Rightarrow> [] | Some t \<Rightarrow> t)"

definition after_transcribe ::
  "batch_env \<Rightarrow> args \<Rightarrow> real \<Rightarrow> whisper_result option \<Rightarrow> event list \<times> final_result option" where
  "after_transcribe env a duration result =
     (case result of
        None \<Rightarrow> ([Progress 90 Finalizing, Progress 0 No_result], None)
      | Some res \<Rightarrow>
          (let txt = raw_text res in
           if txt = [] then ([Progress 90 Finalizing, Progress 0 Empty_result], None)
           else
             (let txt = sanitize_for_json (b_nfkd env) txt;
                  final_result = make_final_result env a duration res txt;
                  (saving, final_result) = save_block env final_result
              in ([Progress 90 Finalizing] @ saving @ send_block env final_result,
                  Some final_result))))"

text \<open>
  The body of the outer \<open>try\<close> of \<open>transcribe_video\<close>: the events, and either the exception
  that leaves the body or the value returned.
\<close>

definition transcribe_video_body :: "batch_env \<Rightarrow> args \<Rightarrow> event list \<times> (exn + final_result option)" where
  "transcribe_video_body env a =
     (let ev0 = [Progress 10 (Starting (a_model a)), Progress 10 Loading_model,
                 Call_load_model (a_model a)] in
      case b_load_model env (a_model a) of
        Some e \<Rightarrow> (ev0, Inl e)
      | None \<Rightarrow>
          (let ev1 = ev0 @ [Progress 30 Model_loaded, Call_load_audio (a_video_path a)] in
           case b_load_audio env (a_video_path a) of
             Inl e \<Rightarrow> (ev1, Inl e)
           | Inr n_samples \<Rightarrow>
               (let duration = of_nat n_samples / 16000;
                    estimated_time = duration * multiplier (a_model a);
                    ev2 = ev1 @ [Progress 50 (Audio_loaded duration estimated_time),
                                 Thread_start, Call_transcribe] in
                case b_transcribe env of
                  Inl e \<Rightarrow> (ev2, Inl e)
                | Inr result \<Rightarrow>
                    (case after_transcribe env a duration result of
                       (ev3, returned) \<Rightarrow> (ev2 @ ev3, Inr returned)))))"

text \<open>
  \<open>transcribe_video\<close>: the outer \<open>except Exception\<close> logs, prints a record with progress 0
  and the status \<open>Error: {str(e)}\<close>, and raises the exception again.
\<close>

definition transcribe_video :: "batch_env \<Rightarrow> args \<Rightarrow> event list \<times> (exn + final_result option)" where
  "transcribe_video env a =
     (case transcribe_video_body env a of
        (ev, Inl e) \<Rightarrow>
          (ev @ [Log_error (U ''Error during transcription: '' @ exn_message e),
                 Progress 0 (Error (exn_message e))],
           Inl e)
      | (ev, Inr returned) \<Rightarrow> (ev, Inr returned))"

text \<open>
  \<open>main\<close>: the call, and \<open>exit(1)\<close> when it raises. \<open>process\<close> is the whole run of the
  script: the records printed while the module is loaded, then \<open>main\<close>, with the exit
  status of the process (0 when \<open>main\<close> returns).
\<close>

definition main :: "batch_env \<Rightarrow> args \<Rightarrow> event list \<times> int" where
  "main env a =
     (case transcribe_video env a of
        (ev, Inl e) \<Rightarrow> (ev @ [Log_error (U ''Transcription failed: '' @ exn_message e)], 1)
      | (ev, Inr returned) \<Rightarrow> (ev, 0))"

definition startup :: "batch_env \<Rightarrow> event list" where
  "startup env =
     (case b_gpu env of
        None \<Rightarrow> [Progress 5 (Using_device (U ''cpu''))]
      | Some (gpu_name, gpu_memory) \<Rightarrow>
          [Progress 5 (Using_device (U ''cuda'')), Progress 8 (Gpu gpu_name gpu_memory)])"

definition process :: "batch_env \<Rightarrow> args \<Rightarrow> event list \<times> int" where
  "process env a = (case main env a of (ev, exit_status) \<Rightarrow> (startup env @ ev, exit_status))"

section \<open>The interactive entry point (video\_transcriber.py)\<close>



















section \<open>Concrete runs\<close>

text \<open>
  A run in which everything works: two seconds of audio (32000 samples) in \<open>a.mp4\<close>, the
  model \<open>base\<close> on the CPU, the transcript \<open>hi\<close> between spaces. Its final result is
  \<open>sample_result\<close>. The variants below change one outcome each.
\<close>

definition sample_args :: args where
  "sample_args = \<lparr>a_video_path = U ''a.mp4'', a_model = U ''base'', a_language = None\<rparr>"

definition sample_file_exists :: "ustr \<Rightarrow> bool" where
  "sample_file_exists p \<longleftrightarrow> p = U ''a.mp4''"

definition sample_load_model :: "ustr \<Rightarrow> exn option" where
  "sample_load_model name = None"

definition sample_load_audio :: "ustr \<Rightarrow> exn + nat" where
  "sample_load_audio p =
     (if sample_file_exists p then Inr 32000 else Inl (Exn (U ''Failed to load audio'')))"

definition sample_write_file :: "final_result \<Rightarrow> exn + ustr \<times> ustr" where
  "sample_write_file r = Inr (U ''/w/transcriptions/a_20240101_000000.json'', U ''a_20240101_000000.json'')"

definition sample_env :: batch_env where
  "sample_env =
     \<lparr>b_gpu = None,
      b_load_model = sample_load_model,
      b_load_audio = sample_load_audio,
      b_transcribe = Inr (Some \<lparr>w_text = Some (U '' hi ''), w_language = Some (U ''en'')\<rparr>),
      b_write_file = sample_write_file,
      b_now_isoformat = U ''2024-01-01T00:00:00'',
      b_float_repr = repr_sample,
      b_nfkd = nfkd_latin1\<rparr>"

text \<open>The model call raises.\<close>

definition env_inference_fails :: batch_env where
  "env_inference_fails = sample_env\<lparr>b_transcribe := Inl (Exn (U ''CUDA out of memory''))\<rparr>"

text \<open>The input path names no file.\<close>

definition args_missing_file :: args where
  "args_missing_file = sample_args\<lparr>a_video_path := U ''missing.mp4''\<rparr>"

text \<open>Writing the transcription file fails (the disk is full).\<close>

definition write_file_disk_full :: "final_result \<Rightarrow> exn + ustr \<times> ustr" where
  "write_file_disk_full r = Inl (Exn (U ''No space left on device''))"

definition env_disk_full :: batch_env where
  "env_disk_full = sample_env\<lparr>b_write_file := write_file_disk_full\<rparr>"

text \<open>
  The model is a checkpoint file whose name holds a byte that is not UTF-8, so that the
  model name holds the lone surrogate U+DCE9 (code point 56553). Writing the
  transcription file, which holds the model name, then fails with the encoding error.
\<close>

definition args_checkpoint :: args where
  "args_checkpoint = sample_args\<lparr>a_model := U ''caf'' @ [56553] @ U ''.pt''\<rparr>"

definition write_file_unencodable :: "final_result \<Rightarrow> exn + ustr \<times> ustr" where
  "write_file_unencodable r = Inl UnicodeEncodeError"

definition env_checkpoint :: batch_env where
  "env_checkpoint = sample_env\<lparr>b_write_file := write_file_unencodable\<rparr>"












section \<open>The events before the model call\<close>

text \<open>
  The events of \<open>transcribe_video\<close> up to the call that loads the model, up to the
  call that reads the audio, and up to the model call, named for the proofs.
\<close>

definition ev_load :: "args \<Rightarrow> event list" where
  "ev_load a = [Progress 10 (Starting (a_model a)), Progress 10 Loading_model, Call_load_model (a_model a)]"

definition ev_audio :: "args \<Rightarrow> event list" where
  "ev_audio a = ev_load a @ [Progress 30 Model_loaded, Call_load_audio (a_video_path a)]"

definition ev_call :: "args \<Rightarrow> nat \<Rightarrow> event list" where
  "ev_call a n =
     ev_audio a @
     [Progress 50 (Audio_loaded (of_nat n / 16000) (of_nat n / 16000 * multiplier (a_model a))),
      Thread_start, Call_transcribe]"

section \<open>Proofs: the sanitizer\<close>

lemma set_str_replace: "set (str_replace old new s) \<subseteq> (set s - {old}) \<union> set new"
  by (induction s) (auto simp: str_replace_def)

lemma in_apply_replacements:
  assumes "c \<in> set (apply_replacements s)"
  shows "c \<in> set s \<or> c \<in> {45, 39, 34, 46, 32}"
proof -
  have step: "\<And>old new t P. set new \<subseteq> {45, 39, 34, 46, 32} \<Longrightarrow>
     (\<forall>c\<in>set t. c \<in> set s \<or> c \<in> {45, 39, 34, 46, 32}) \<Longrightarrow>
     (\<forall>c\<in>set (str_replace old new t). c \<in> set s \<or> c \<in> {45, 39, 34, 46, 32})"
    using set_str_replace by fastforce
  have "\<forall>c\<in>set (apply_replacements s). c \<in> set s \<or> c \<in> {45, 39, 34, 46, 32}"
    unfolding apply_replacements_def replacements_def U_def
    by (simp del: insert_iff) (intro step; simp)
  with assms show ?thesis by blast
qed

lemma in_sub_control: "c \<in> set (sub_control s) \<Longrightarrow> c \<in> set s \<or> c = 32"
  by (auto simp: sub_control_def split: if_splits)

lemma in_collapse_ws: "c \<in> set (collapse_ws s) \<Longrightarrow> (c \<in> set s \<and> \<not> isspace c) \<or> c = 32"
proof (induction s rule: collapse_ws.induct)
  case 1
  then show ?case by simp
next
  case (2 d ds)
  show ?case
  proof (cases "isspace d")
    case True
    with 2 have "c = 32 \<or> c \<in> set (collapse_ws (dropWhile isspace ds))" by simp
    with 2 True show ?thesis by (auto dest: set_dropWhileD)
  next
    case False
    with 2 show ?thesis by auto
  qed
qed

lemma set_rstrip: "set (rstrip s) \<subseteq> set s"
  unfolding rstrip_def using set_dropWhileD [of _ isspace "rev s"] by auto

lemma set_strip: "set (strip s) \<subseteq> set s"
  unfolding strip_def lstrip_def using set_rstrip set_dropWhileD by fastforce

lemma sanitize_chars_kept:
  assumes "c \<in> set (sanitize_for_json nfkd x)"
  shows "keep_char c"
proof -
  from assms have "c \<in> set (collapse_ws (filter keep_char (apply_replacements (sub_control (nfkd x)))))"
    unfolding sanitize_for_json_def using set_strip by blast
  then have "(c \<in> set (filter keep_char (apply_replacements (sub_control (nfkd x))))) \<or> c = 32"
    using in_collapse_ws by blast
  then show ?thesis by (auto simp: keep_char_def)
qed

lemma single_spaced_tl: "single_spaced (c # l) \<Longrightarrow> single_spaced l"
  by (cases l) auto

lemma single_spaced_nonspace: "\<not> isspace c \<Longrightarrow> single_spaced (c # l) = single_spaced l"
  by (cases l) auto

lemma single_spaced_dropWhile: "single_spaced s \<Longrightarrow> single_spaced (dropWhile P s)"
  by (induction s) (auto dest: single_spaced_tl)

lemma single_spaced_prefix: "single_spaced (xs @ ys) \<Longrightarrow> single_spaced xs"
proof (induction xs rule: single_spaced.induct)
  case 1
  then show ?case by simp
next
  case (2 c)
  then show ?case by (cases ys) auto
next
  case (3 c d cs)
  then show ?case by simp
qed

lemma rstrip_prefix: "s = rstrip s @ rev (takeWhile isspace (rev s))"
proof -
  have "rstrip s @ rev (takeWhile isspace (rev s)) =
        rev (takeWhile isspace (rev s) @ dropWhile isspace (rev s))"
    by (simp only: rstrip_def rev_append)
  also have "\<dots> = rev (rev s)" by (simp only: takeWhile_dropWhile_id)
  finally show ?thesis by simp
qed

lemma single_spaced_strip: "single_spaced s \<Longrightarrow> single_spaced (strip s)"
proof -
  assume "single_spaced s"
  then have a: "single_spaced (lstrip s)" by (simp add: lstrip_def single_spaced_dropWhile)
  have "lstrip s = rstrip (lstrip s) @ rev (takeWhile isspace (rev (lstrip s)))"
    by (rule rstrip_prefix)
  with a have "single_spaced (rstrip (lstrip s) @ rev (takeWhile isspace (rev (lstrip s))))" by simp
  then show ?thesis unfolding strip_def by (rule single_spaced_prefix)
qed

lemma single_spaced_collapse_ws: "single_spaced (collapse_ws s)"
proof (induction s rule: collapse_ws.induct)
  case 1
  then show ?case by simp
next
  case (2 c cs)
  show ?case
  proof (cases "isspace c")
    case True
    let ?t = "dropWhile isspace cs"
    from 2 True have ih: "single_spaced (collapse_ws ?t)" by simp
    from True have eq: "collapse_ws (c # cs) = 32 # collapse_ws ?t" by simp
    show ?thesis
    proof (cases ?t)
      case Nil
      show ?thesis unfolding eq Nil by simp
    next
      case (Cons d r)
      then have "\<not> isspace d" using hd_dropWhile [of isspace cs] by auto
      with ih show ?thesis unfolding eq Cons by simp
    qed
  next
    case False
    with 2 show ?thesis by (simp add: single_spaced_nonspace)
  qed
qed

lemma collapse_ws_fixed: "single_spaced s \<Longrightarrow> collapse_ws s = s"
proof (induction s rule: single_spaced.induct)
  case 1
  then show ?case by simp
next
  case (2 c)
  then show ?case by auto
next
  case (3 c d cs)
  then show ?case by auto
qed

lemma lstrip_fixed: "s = [] \<or> \<not> isspace (hd s) \<Longrightarrow> lstrip s = s"
  by (cases s) (auto simp: lstrip_def)

lemma rstrip_fixed: "s = [] \<or> \<not> isspace (last s) \<Longrightarrow> rstrip s = s"
  by (cases s rule: rev_cases) (auto simp: rstrip_def)

lemma lstrip_head: "lstrip s = [] \<or> \<not> isspace (hd (lstrip s))"
  unfolding lstrip_def using hd_dropWhile [of isspace s] by blast

lemma rstrip_last: "rstrip s = [] \<or> \<not> isspace (last (rstrip s))"
proof -
  have "dropWhile isspace (rev s) = [] \<or> \<not> isspace (hd (dropWhile isspace (rev s)))"
    using hd_dropWhile [of isspace "rev s"] by blast
  then show ?thesis by (auto simp: rstrip_def last_rev)
qed

lemma rstrip_head:
  assumes "s = [] \<or> \<not> isspace (hd s)"
  shows "rstrip s = [] \<or> \<not> isspace (hd (rstrip s))"
proof (cases "rstrip s")
  case Nil
  then show ?thesis by simp
next
  case (Cons a r)
  have "s = rstrip s @ rev (takeWhile isspace (rev s))" by (rule rstrip_prefix)
  with Cons have "s = a # (r @ rev (takeWhile isspace (rev s)))" by simp
  then have "hd s = a" "s \<noteq> []" by (metis list.sel(1), metis list.distinct(1))
  with assms Cons show ?thesis by simp
qed

lemma strip_strip: "strip (strip s) = strip s"
proof -
  have h: "strip s = [] \<or> \<not> isspace (hd (strip s))"
    unfolding strip_def by (rule rstrip_head) (rule lstrip_head)
  have l: "strip s = [] \<or> \<not> isspace (last (strip s))"
    unfolding strip_def by (rule rstrip_last)
  from h have "lstrip (strip s) = strip s" by (rule lstrip_fixed)
  moreover from l have "rstrip (strip s) = strip s" by (rule rstrip_fixed)
  ultimately show ?thesis by (simp add: strip_def [of "strip s"])
qed

lemma plain_facts:
  assumes "plain c"
  shows "\<not> is_control c" "keep_char c" "isspace c \<longrightarrow> c = 32"
    "c \<notin> {8211, 8212, 8216, 8217, 8220, 8221, 8230, 160}"
  using assms
  by (auto simp: plain_def is_control_def keep_char_def isprintable_def isspace_def
      accents_lower_def accents_upper_def)

lemma str_replace_absent: "old \<notin> set s \<Longrightarrow> str_replace old new s = s"
  by (induction s) (auto simp: str_replace_def)

lemma apply_replacements_plain:
  assumes "\<forall>c\<in>set s. plain c"
  shows "apply_replacements s = s"
proof -
  have "\<forall>k\<in>{8211, 8212, 8216, 8217, 8220, 8221, 8230, 160}. k \<notin> set s"
    using assms plain_facts(4) by blast
  then show ?thesis
    by (simp add: apply_replacements_def replacements_def str_replace_absent)
qed

lemma sub_control_plain: "\<forall>c\<in>set s. plain c \<Longrightarrow> sub_control s = s"
  by (simp add: sub_control_def plain_facts(1) map_idI)

lemma filter_keep_plain: "\<forall>c\<in>set s. plain c \<Longrightarrow> filter keep_char s = s"
  by (simp add: plain_facts(2))

lemma sanitize_chars_plain:
  assumes dec: "nfkd_decomposed nfkd" and c: "c \<in> set (sanitize_for_json nfkd x)"
  shows "plain c"
proof -
  let ?r = "apply_replacements (sub_control (nfkd x))"
  from c have "c \<in> set (collapse_ws (filter keep_char ?r))"
    unfolding sanitize_for_json_def using set_strip by blast
  then have "(c \<in> set (filter keep_char ?r) \<and> \<not> isspace c) \<or> c = 32"
    by (rule in_collapse_ws)
  then show ?thesis
  proof
    assume a: "c \<in> set (filter keep_char ?r) \<and> \<not> isspace c"
    then have k: "keep_char c" and ns: "\<not> isspace c" and r: "c \<in> set ?r" by auto
    show ?thesis
    proof (cases "c \<in> set accents_lower \<union> set accents_upper")
      case True
      then have "c \<notin> {45, 39, 34, 46, 32}" by (auto simp: accents_lower_def accents_upper_def)
      with r have "c \<in> set (sub_control (nfkd x))" using in_apply_replacements by blast
      with True have "c \<in> set (nfkd x)"
        using in_sub_control by (fastforce simp: accents_lower_def accents_upper_def)
      with dec True have "c \<in> {198, 216, 230, 248}" unfolding nfkd_decomposed_def by blast
      then show ?thesis by (auto simp: plain_def)
    next
      case False
      with k ns show ?thesis by (auto simp: keep_char_def isprintable_def plain_def isspace_def)
    qed
  next
    assume "c = 32"
    then show ?thesis by (simp add: plain_def)
  qed
qed

lemma decomp_latin1_plain: "plain c \<Longrightarrow> decomp_latin1 c = [c]"
  by (auto simp: plain_def decomp_latin1_def nfkd_table_latin1_def)

lemma nfkd_latin1_fixes_plain: "nfkd_fixes_plain nfkd_latin1"
proof -
  have "(\<forall>c\<in>set s. plain c) \<Longrightarrow> concat (map decomp_latin1 s) = s" for s
    by (induction s) (simp_all add: decomp_latin1_plain)
  then show ?thesis by (simp add: nfkd_fixes_plain_def nfkd_latin1_def)
qed

lemma decomp_latin1_decomposed:
  "list_all (\<lambda>c. c \<in> set accents_lower \<union> set accents_upper \<longrightarrow> c \<in> {198, 216, 230, 248}) (decomp_latin1 d)"
proof (cases "d \<in> set accents_lower \<union> set accents_upper")
  case True
  then show ?thesis
    by (auto simp: accents_lower_def accents_upper_def decomp_latin1_def nfkd_table_latin1_def)
next
  case False
  then have "d \<notin> {224::nat, 192}" by (auto simp: accents_lower_def accents_upper_def)
  show ?thesis
  proof (cases "map_of nfkd_table_latin1 d")
    case None
    with False show ?thesis by (simp add: decomp_latin1_def)
  next
    case (Some v)
    then have "(d, v) \<in> set nfkd_table_latin1" by (rule map_of_SomeD)
    then have "list_all (\<lambda>c. c \<notin> set accents_lower \<union> set accents_upper) v"
      unfolding nfkd_table_latin1_def accents_lower_def accents_upper_def by auto
    with Some show ?thesis by (simp add: decomp_latin1_def list_all_iff)
  qed
qed

lemma nfkd_latin1_decomposed: "nfkd_decomposed nfkd_latin1"
  unfolding nfkd_decomposed_def nfkd_latin1_def
  using decomp_latin1_decomposed by (fastforce simp: list_all_iff)

lemmas sanitize_eval =
  sanitize_for_json_def nfkd_latin1_def decomp_latin1_def nfkd_table_latin1_def
  sub_control_def is_control_def apply_replacements_def replacements_def U_def str_replace_def
  keep_char_def isprintable_def accents_lower_def accents_upper_def isspace_def
  strip_def lstrip_def rstrip_def




text \<open>
  Claim C1. The sanitizer is idempotent: for every string \<open>x\<close>, sanitizing the sanitized
  string gives the sanitized string again. The normalizer is a library call; the two
  properties of NFKD the proof needs are that it leaves a string of printable ASCII and
  undecomposable letters alone, and that its output holds no precomposed letter.
\<close>

theorem sanitize_idempotent:
  assumes fp: "nfkd_fixes_plain nfkd" and dec: "nfkd_decomposed nfkd"
  shows "sanitize_for_json nfkd (sanitize_for_json nfkd x) = sanitize_for_json nfkd x"
proof -
  let ?y = "sanitize_for_json nfkd x"
  have pl: "\<forall>c\<in>set ?y. plain c" using dec sanitize_chars_plain by blast
  have ss: "single_spaced ?y"
    unfolding sanitize_for_json_def by (intro single_spaced_strip single_spaced_collapse_ws)
  have st: "strip ?y = ?y" unfolding sanitize_for_json_def by (rule strip_strip)
  from fp pl have "nfkd ?y = ?y" unfolding nfkd_fixes_plain_def by blast
  then have "sanitize_for_json nfkd ?y = strip (collapse_ws (filter keep_char (apply_replacements (sub_control ?y))))"
    by (simp add: sanitize_for_json_def [of nfkd ?y])
  also have "\<dots> = strip (collapse_ws ?y)"
    using pl by (simp only: sub_control_plain apply_replacements_plain filter_keep_plain)
  also have "\<dots> = strip ?y" using ss by (simp only: collapse_ws_fixed)
  also have "\<dots> = ?y" by (rule st)
  finally show ?thesis .
qed

theorem sanitize_idempotent_witness:
  "sanitize_for_json nfkd_latin1
     (sanitize_for_json nfkd_latin1 [32, 9, 201, 108, 160, 8220, 111, 108, 233, 8221, 8230, 13, 198, 7, 9731, 32]) =
   [69, 108, 32, 34, 111, 108, 101, 34, 46, 46, 46, 32, 198]"
proof -
  have e: "sanitize_for_json nfkd_latin1
      [32, 9, 201, 108, 160, 8220, 111, 108, 233, 8221, 8230, 13, 198, 7, 9731, 32] =
    [69, 108, 32, 34, 111, 108, 101, 34, 46, 46, 46, 32, 198]"
    by (simp add: sanitize_eval)
  show ?thesis
    using sanitize_idempotent [OF nfkd_latin1_fixes_plain nfkd_latin1_decomposed,
        of "[32, 9, 201, 108, 160, 8220, 111, 108, 233, 8221, 8230, 13, 198, 7, 9731, 32]"]
    by (simp only: e)
qed

text \<open>
  Claim C4. Every character of the sanitizer's output is on the allow-list: a printable
  ASCII character (code point below 127), one of the listed lower-case or upper-case
  accented letters, or one of the whitespace characters tab, newline, carriage return
  and space. It holds whatever the normalizer returns.
\<close>

theorem sanitize_output_allowed:
  "\<forall>c\<in>set (sanitize_for_json nfkd x).
     (32 \<le> c \<and> c < 127) \<or> c \<in> set accents_lower \<or> c \<in> set accents_upper \<or> c \<in> {9, 10, 13, 32}"
proof
  fix c
  assume "c \<in> set (sanitize_for_json nfkd x)"
  then have "keep_char c" by (rule sanitize_chars_kept)
  then show "(32 \<le> c \<and> c < 127) \<or> c \<in> set accents_lower \<or> c \<in> set accents_upper \<or> c \<in> {9, 10, 13, 32}"
    by (auto simp: keep_char_def isprintable_def)
qed

theorem sanitize_output_allowed_witness:
  "(198::nat) \<in> set (sanitize_for_json nfkd_latin1 [9731, 198, 233, 7]) \<and>
   ((32 \<le> (198::nat) \<and> (198::nat) < 127) \<or> 198 \<in> set accents_lower \<or> 198 \<in> set accents_upper \<or>
    (198::nat) \<in> {9, 10, 13, 32})"
proof -
  have e: "sanitize_for_json nfkd_latin1 [9731, 198, 233, 7] = [198, 101]"
    by (simp add: sanitize_eval)
  then have m: "(198::nat) \<in> set (sanitize_for_json nfkd_latin1 [9731, 198, 233, 7])" by simp
  have d: "(32 \<le> (198::nat) \<and> (198::nat) < 127) \<or> 198 \<in> set accents_lower \<or>
      198 \<in> set accents_upper \<or> (198::nat) \<in> {9, 10, 13, 32}"
    using sanitize_output_allowed [of nfkd_latin1 "[9731, 198, 233, 7]"] m by (rule bspec)
  from m d show ?thesis by (rule conjI)
qed



section \<open>Proofs: the progress estimator\<close>

lemma ease_out_frac:
  assumes "0 < steps"
  shows "ease_out steps i = of_int (int i * (2 * steps - int i)) / of_int (steps * steps)"
  using assms by (simp add: ease_out_def Let_def field_simps)

lemma ease_out_mono:
  assumes "i \<le> j" "int j < steps"
  shows "ease_out steps i \<le> ease_out steps j"
proof -
  from assms have s: "0 < steps" by linarith
  have "int i * (2 * steps - int i) \<le> int j * (2 * steps - int j)"
  proof -
    have "int j * (2 * steps - int j) - int i * (2 * steps - int i)
        = (int j - int i) * (2 * steps - int i - int j)" by (simp add: algebra_simps)
    moreover have "0 \<le> (int j - int i) * (2 * steps - int i - int j)"
      using assms by (intro mult_nonneg_nonneg) linarith+
    ultimately show ?thesis by linarith
  qed
  then have "(of_int (int i * (2 * steps - int i)) :: real) \<le> of_int (int j * (2 * steps - int j))"
    by (simp only: of_int_le_iff)
  then show ?thesis
    using s by (simp only: ease_out_frac [OF s] divide_le_cancel) simp
qed

lemma ease_out_range:
  assumes "int i < steps"
  shows "0 \<le> ease_out steps i \<and> ease_out steps i < 1"
proof -
  from assms have s: "0 < steps" by linarith
  have a: "0 \<le> int i * (2 * steps - int i)" using assms by (intro mult_nonneg_nonneg) linarith+
  have "steps * steps - int i * (2 * steps - int i) = (steps - int i) * (steps - int i)"
    by (simp add: algebra_simps)
  moreover have "0 < (steps - int i) * (steps - int i)" using assms by (intro mult_pos_pos) linarith+
  ultimately have b: "int i * (2 * steps - int i) < steps * steps" by linarith
  have c: "(0::real) < of_int (steps * steps)" using s by simp
  from a have "(0::real) \<le> of_int (int i * (2 * steps - int i))" by (simp only: of_int_0_le_iff)
  moreover from b have "(of_int (int i * (2 * steps - int i)) :: real) < of_int (steps * steps)"
    by (simp only: of_int_less_iff)
  ultimately show ?thesis using c by (simp add: ease_out_frac [OF s])
qed


lemma py_int_mono: "x \<le> y \<Longrightarrow> 0 \<le> x \<Longrightarrow> py_int x \<le> py_int y"
  by (simp add: py_int_def floor_mono)

lemma progress_percent_mono:
  "0 \<le> p \<Longrightarrow> p \<le> q \<Longrightarrow> progress_percent p \<le> progress_percent q"
  by (simp add: progress_percent_def py_int_mono)

lemma progress_percent_range:
  assumes "0 \<le> p" "p < 1"
  shows "50 \<le> progress_percent p \<and> progress_percent p < 90"
proof -
  from assms have a: "0 \<le> p * 40" "p * 40 < 40" by simp_all
  then have "0 \<le> \<lfloor>p * 40\<rfloor>" "\<lfloor>p * 40\<rfloor> < 40" by (simp_all add: floor_less_iff)
  with a show ?thesis by (simp add: progress_percent_def py_int_def)
qed

lemma simulate_loop_elems:
  "x \<in> set (simulate_loop flag steps i) \<Longrightarrow> \<exists>j. i \<le> j \<and> int j < steps \<and> x = ease_out steps j"
proof (induction flag steps i rule: simulate_loop.induct)
  case (1 flag steps i)
  show ?case
  proof (cases "int i < steps \<and> \<not> flag i")
    case True
    with 1(2) have "x = ease_out steps i \<or> x \<in> set (simulate_loop flag steps (Suc i))"
      by (simp add: simulate_loop.simps [of flag steps i])
    then show ?thesis
    proof
      assume "x = ease_out steps i"
      with True show ?thesis by blast
    next
      assume "x \<in> set (simulate_loop flag steps (Suc i))"
      with 1(1) True obtain j where "Suc i \<le> j" "int j < steps" "x = ease_out steps j" by blast
      then show ?thesis by (intro exI [of _ j]) simp
    qed
  next
    case False
    with 1(2) show ?thesis by (auto simp: simulate_loop.simps [of flag steps i] split: if_splits)
  qed
qed

lemma simulate_loop_sorted: "sorted (map progress_percent (simulate_loop flag steps i))"
proof (induction flag steps i rule: simulate_loop.induct)
  case (1 flag steps i)
  show ?case
  proof (cases "int i < steps \<and> \<not> flag i")
    case True
    then have eq: "simulate_loop flag steps i = ease_out steps i # simulate_loop flag steps (Suc i)"
      by (simp add: simulate_loop.simps [of flag steps i])
    have "progress_percent (ease_out steps i) \<le> progress_percent x"
      if "x \<in> set (simulate_loop flag steps (Suc i))" for x
    proof -
      from that obtain j where j: "Suc i \<le> j" "int j < steps" "x = ease_out steps j"
        using simulate_loop_elems by blast
      then have "ease_out steps i \<le> ease_out steps j" by (intro ease_out_mono) simp_all
      moreover have "0 \<le> ease_out steps i" using True ease_out_range by blast
      ultimately show ?thesis using j(3) by (simp add: progress_percent_mono)
    qed
    with 1 True show ?thesis unfolding eq by simp
  next
    case False
    then have "simulate_loop flag steps i = []"
      by (auto simp: simulate_loop.simps [of flag steps i])
    then show ?thesis by simp
  qed
qed

text \<open>
  Claim C3. Within one run of the simulation, whatever the moment at which the loop sees
  the completion flag, the percentages \<open>50 + int(p * 40)\<close> it emits are non-decreasing and
  each lies between 0 and 100 (in fact between 50 and 89).
\<close>

theorem progress_monotone_bounded:
  "sorted (emitted_percentages flag n_samples model_name) \<and>
   (\<forall>p\<in>set (emitted_percentages flag n_samples model_name). 0 \<le> p \<and> p \<le> 100)"
proof
  show "sorted (emitted_percentages flag n_samples model_name)"
    unfolding emitted_percentages_def simulate_progress_def by (rule simulate_loop_sorted)
next
  show "\<forall>p\<in>set (emitted_percentages flag n_samples model_name). 0 \<le> p \<and> p \<le> 100"
  proof
    fix p
    assume "p \<in> set (emitted_percentages flag n_samples model_name)"
    then obtain x where x: "x \<in> set (simulate_loop flag (sim_steps n_samples model_name) 0)"
      and p: "p = progress_percent x"
      unfolding emitted_percentages_def simulate_progress_def by auto
    from x obtain j where "int j < sim_steps n_samples model_name"
      "x = ease_out (sim_steps n_samples model_name) j"
      using simulate_loop_elems by blast
    then have "0 \<le> x \<and> x < 1" using ease_out_range by blast
    then have "50 \<le> progress_percent x \<and> progress_percent x < 90"
      using progress_percent_range by blast
    with p show "0 \<le> p \<and> p \<le> 100" by simp
  qed
qed

lemmas estimator_eval =
  emitted_percentages_def simulate_progress_def sim_steps_def expected_time_def multiplier_def
  time_multipliers_def U_def py_int_def progress_percent_def ease_out_def Let_def

lemma run_example:
  "emitted_percentages (\<lambda>i. 4 \<le> i) 960000 (U ''base'') = [50, 57, 64, 70]"
  by (simp add: estimator_eval simulate_loop.simps)


theorem progress_monotone_bounded_witness:
  "emitted_percentages (\<lambda>i. 4 \<le> i) 960000 (U ''base'') = [50, 57, 64, 70] \<and>
   sorted (emitted_percentages (\<lambda>i. 4 \<le> i) 960000 (U ''base''))"
proof -
  have "sorted (emitted_percentages (\<lambda>i. 4 \<le> i) 960000 (U ''base''))"
    using progress_monotone_bounded [of "\<lambda>i. 4 \<le> i" 960000 "U ''base''"] by (rule conjunct1)
  with run_example show ?thesis by (rule conjI)
qed

lemma multiplier_bounds: "1 / 10 \<le> multiplier m \<and> multiplier m \<le> 15 / 10"
proof (cases "map_of time_multipliers m")
  case None
  then show ?thesis by (simp add: multiplier_def)
next
  case (Some x)
  then have "(m, x) \<in> set time_multipliers" by (rule map_of_SomeD)
  then have "x \<in> {1 / 10, 2 / 10, 4 / 10, 8 / 10, 15 / 10}"
    by (auto simp: time_multipliers_def)
  with Some show ?thesis by (auto simp: multiplier_def)
qed

lemma multiplier_tiny_large:
  "multiplier (U ''tiny'') = 1 / 10" "multiplier (U ''large'') = 15 / 10"
  by (simp_all add: multiplier_def time_multipliers_def U_def)

lemma simulate_loop_uninterrupted:
  "simulate_loop (\<lambda>_. False) steps i = map (ease_out steps) [i..<nat steps]"
proof (induction "\<lambda>_::nat. False" steps i rule: simulate_loop.induct)
  case (1 steps i)
  show ?case
  proof (cases "int i < steps")
    case True
    then have "i < nat steps" by linarith
    then have "[i..<nat steps] = i # [Suc i..<nat steps]" by (rule upt_conv_Cons)
    with 1 True show ?thesis by (simp add: simulate_loop.simps [of _ steps i])
  next
    case False
    then have "nat steps \<le> i" by linarith
    with False show ?thesis by (simp add: simulate_loop.simps [of _ steps i])
  qed
qed

lemma ease_out_step:
  assumes "0 < steps"
  shows "ease_out steps (Suc i) - ease_out steps i =
    (2 * of_int steps - 2 * of_nat i - 1) / (of_int steps * of_int steps)"
  using assms by (simp add: ease_out_def Let_def field_simps)

lemma sim_steps_pos: "10 \<le> sim_steps n m"
  by (simp add: sim_steps_def)

lemma expected_time_nonneg: "0 \<le> expected_time n m"
  using multiplier_bounds [of m] by (simp add: expected_time_def)

text \<open>
  Claim C5. For every number of audio samples and every model tag, the number of steps
  is the larger of 10 and the floor of a fifth of the estimated time, the estimated
  time being the duration times the multiplier of the tag; no tag has a smaller
  multiplier than \<open>tiny\<close> or a larger one than \<open>large\<close>, and a tag outside the table gets
  0.5. A run that is never interrupted passes \<open>p * (2 - p)\<close>, \<open>p = i / steps\<close>, for each
  \<open>i\<close> below \<open>steps\<close>; these values increase, by less at every step.
\<close>

theorem estimator_steps_and_curve:
  "sim_steps n m = spec_steps (of_nat n / 16000) (multiplier m) \<and>
   multiplier (U ''tiny'') \<le> multiplier m \<and> multiplier m \<le> multiplier (U ''large'') \<and>
   (map_of time_multipliers m = None \<longrightarrow> multiplier m = 5 / 10) \<and>
   simulate_progress (\<lambda>_. False) n m =
     map (\<lambda>i. let p = of_nat i / of_int (sim_steps n m) in p * (2 - p)) [0..<nat (sim_steps n m)] \<and>
   (\<forall>i. int i + 1 < sim_steps n m \<longrightarrow>
      ease_out (sim_steps n m) i < ease_out (sim_steps n m) (i + 1) \<and>
      ease_out (sim_steps n m) (i + 2) - ease_out (sim_steps n m) (i + 1)
        < ease_out (sim_steps n m) (i + 1) - ease_out (sim_steps n m) i)"
proof (intro conjI allI impI)
  have "0 \<le> expected_time n m / 5" using expected_time_nonneg [of n m] by simp
  then show "sim_steps n m = spec_steps (of_nat n / 16000) (multiplier m)"
    by (simp add: sim_steps_def spec_steps_def py_int_def expected_time_def)
next
  show "multiplier (U ''tiny'') \<le> multiplier m"
    using multiplier_bounds [of m] by (simp add: multiplier_tiny_large)
next
  show "multiplier m \<le> multiplier (U ''large'')"
    using multiplier_bounds [of m] by (simp add: multiplier_tiny_large)
next
  assume "map_of time_multipliers m = None"
  then show "multiplier m = 5 / 10" by (simp add: multiplier_def)
next
  show "simulate_progress (\<lambda>_. False) n m =
     map (\<lambda>i. let p = of_nat i / of_int (sim_steps n m) in p * (2 - p)) [0..<nat (sim_steps n m)]"
    by (simp add: simulate_progress_def simulate_loop_uninterrupted ease_out_def [abs_def])
next
  fix i
  assume i: "int i + 1 < sim_steps n m"
  let ?s = "sim_steps n m"
  have s: "0 < ?s" using sim_steps_pos [of n m] by linarith
  have d: "(0::real) < of_int ?s * of_int ?s" using s by simp
  have a: "ease_out ?s (Suc i) - ease_out ?s i = (2 * of_int ?s - 2 * of_nat i - 1) / (of_int ?s * of_int ?s)"
    by (rule ease_out_step [OF s])
  have b: "ease_out ?s (Suc (Suc i)) - ease_out ?s (Suc i) =
      (2 * of_int ?s - 2 * of_nat (Suc i) - 1) / (of_int ?s * of_int ?s)"
    by (rule ease_out_step [OF s])
  from i have "(of_int (int i + 1) :: real) < of_int ?s" by (simp only: of_int_less_iff)
  then have n: "(0::real) < 2 * of_int ?s - 2 * of_nat i - 1" by simp
  then have "0 < ease_out ?s (Suc i) - ease_out ?s i" using d by (simp only: a zero_less_divide_iff) simp
  then show "ease_out ?s i < ease_out ?s (i + 1)" by simp
  have "(2 * of_int ?s - 2 * of_nat (Suc i) - 1 :: real) < 2 * of_int ?s - 2 * of_nat i - 1" by simp
  then have "ease_out ?s (Suc (Suc i)) - ease_out ?s (Suc i) < ease_out ?s (Suc i) - ease_out ?s i"
    using d by (simp only: a b divide_strict_right_mono)
  then show "ease_out ?s (i + 2) - ease_out ?s (i + 1) < ease_out ?s (i + 1) - ease_out ?s i"
    by simp
qed

theorem estimator_steps_and_curve_witness:
  "sim_steps 57600000 (U ''large'') = 1080 \<and> sim_steps 960000 (U ''turbo'') = 10"
proof -
  have a: "spec_steps (of_nat 57600000 / 16000) (multiplier (U ''large'')) = 1080"
    by (simp add: spec_steps_def multiplier_tiny_large)
  have n: "map_of time_multipliers (U ''turbo'') = None"
    by (simp add: time_multipliers_def U_def)
  have t: "sim_steps 960000 (U ''turbo'') = spec_steps (of_nat 960000 / 16000) (multiplier (U ''turbo''))"
    using estimator_steps_and_curve [of 960000 "U ''turbo''"] by (rule conjunct1)
  have "multiplier (U ''turbo'') = 5 / 10"
    using estimator_steps_and_curve [of 960000 "U ''turbo''"] n by blast
  with t have b: "sim_steps 960000 (U ''turbo'') = 10" by (simp add: spec_steps_def)
  have "sim_steps 57600000 (U ''large'') = spec_steps (of_nat 57600000 / 16000) (multiplier (U ''large''))"
    using estimator_steps_and_curve [of 57600000 "U ''large''"] by (rule conjunct1)
  with a have "sim_steps 57600000 (U ''large'') = 1080" by simp
  then show ?thesis using b by (rule conjI)
qed

section \<open>Proofs: the subtitle formats\<close>

lemma digits_small: "n < 10 \<Longrightarrow> digits n = [48 + n]"
  by (simp add: digits.simps [of n])

lemma digits_500: "digits 500 = [53, 48, 48]"
  by (simp add: digits.simps [of 500] digits.simps [of 50] digits_small)

lemma zero_pad_cases:
  "zero_pad 2 [a] = [48, a]" "zero_pad 3 [a] = [48, 48, a]" "zero_pad 3 [a, b, c] = [a, b, c]"
  by (simp_all add: zero_pad_def numeral_2_eq_2)

lemma format_time_0: "format_time 0 = U ''00:00:00,000''"
  by (simp add: format_time_def py_floordiv_def py_mod_def py_int_def format_0d_def zero_pad_cases
      digits_small U_def)

lemma format_time_1500: "format_time (3 / 2) = U ''00:00:01,500''"
  by (simp add: format_time_def py_floordiv_def py_mod_def py_int_def format_0d_def zero_pad_cases
      digits_small digits_500 U_def)

lemma format_time_vtt_0: "format_time_vtt 0 = U ''00:00:00.000''"
  by (simp add: format_time_vtt_def py_floordiv_def py_mod_def py_int_def format_0d_def zero_pad_cases
      digits_small U_def)

lemma format_time_vtt_1500: "format_time_vtt (3 / 2) = U ''00:00:01.500''"
  by (simp add: format_time_vtt_def py_floordiv_def py_mod_def py_int_def format_0d_def zero_pad_cases
      digits_small digits_500 U_def)

lemma strip_hi: "strip (U ''hi'') = U ''hi''"
  by (simp add: strip_def lstrip_def rstrip_def U_def isspace_def)

text \<open>
  Claim C6. For a result whose segments are exactly one segment from 0 to 1.5 seconds
  with the text \<open>hi\<close>, the SubRip file is \<open>1\<close>, a line feed,
  \<open>00:00:00,000 --> 00:00:01,500\<close>, a line feed, \<open>hi\<close> and two line feeds; the WebVTT
  file is \<open>WEBVTT\<close> and two line feeds followed by \<open>00:00:00.000 --> 00:00:01.500\<close>, a
  line feed, \<open>hi\<close> and two line feeds. The other fields of the result do not matter.
\<close>

theorem subtitle_formats_example:
  "save_transcription json_dump
     (r\<lparr>r_segments := [\<lparr>seg_start = 0, seg_end = 3 / 2, seg_text = U ''hi''\<rparr>]\<rparr>) (U ''srt'') =
     Some (U ''1'' @ [10] @ U ''00:00:00,000 --> 00:00:01,500'' @ [10] @ U ''hi'' @ [10, 10]) \<and>
   save_transcription json_dump
     (r\<lparr>r_segments := [\<lparr>seg_start = 0, seg_end = 3 / 2, seg_text = U ''hi''\<rparr>]\<rparr>) (U ''vtt'') =
     Some (U ''WEBVTT'' @ [10, 10] @ U ''00:00:00.000 --> 00:00:01.500'' @ [10] @ U ''hi'' @ [10, 10])"
proof
  have i: "str_int 1 = U ''1''" by (simp add: str_int_def digits_small U_def)
  show "save_transcription json_dump
     (r\<lparr>r_segments := [\<lparr>seg_start = 0, seg_end = 3 / 2, seg_text = U ''hi''\<rparr>]\<rparr>) (U ''srt'') =
     Some (U ''1'' @ [10] @ U ''00:00:00,000 --> 00:00:01,500'' @ [10] @ U ''hi'' @ [10, 10])"
    by (simp add: save_transcription_def enumerate_from_def srt_entry_def format_time_0
        format_time_1500 strip_hi i) (simp add: U_def)
next
  show "save_transcription json_dump
     (r\<lparr>r_segments := [\<lparr>seg_start = 0, seg_end = 3 / 2, seg_text = U ''hi''\<rparr>]\<rparr>) (U ''vtt'') =
     Some (U ''WEBVTT'' @ [10, 10] @ U ''00:00:00.000 --> 00:00:01.500'' @ [10] @ U ''hi'' @ [10, 10])"
    by (simp add: save_transcription_def vtt_entry_def format_time_vtt_0
        format_time_vtt_1500 strip_hi) (simp add: U_def)
qed

section \<open>Proofs: the delivery channel\<close>

















lemma utf8_encode_fails:
  "c \<in> set s \<Longrightarrow> utf8_char c = None \<Longrightarrow> utf8_encode s = Inl UnicodeEncodeError"
proof (induction s)
  case Nil
  then show ?case by simp
next
  case (Cons a s)
  show ?case
  proof (cases "utf8_char a")
    case None
    then show ?thesis by simp
  next
    case (Some bs)
    with Cons have "utf8_encode s = Inl UnicodeEncodeError" by auto
    with Some show ?thesis by simp
  qed
qed










lemma sample_json_text:
  "json_dumps repr_sample sample_result =
     [123, 34, 116, 101, 120, 116, 34, 58, 32, 34, 104, 105, 34, 44, 32, 34, 108, 97,
           110, 103, 117, 97, 103, 101, 34, 58, 32, 34, 101, 110, 34, 44, 32, 34, 116, 105,
           109, 101, 115, 116, 97, 109, 112, 34, 58, 32, 34, 50, 48, 50, 52, 45, 48, 49,
           45, 48, 49, 84, 48, 48, 58, 48, 48, 58, 48, 48, 34, 44, 32, 34, 109, 111,
           100, 101, 108, 34, 58, 32, 34, 98, 97, 115, 101, 34, 44, 32, 34, 100, 117, 114,
           97, 116, 105, 111, 110, 34, 58, 32, 50, 46, 48, 125]"
  by (simp add: json_dumps_def json_string_def json_escape_char_def sample_result_def
      repr_sample_def U_def)

lemma sample_utf8:
  "utf8_encode
     [123, 34, 116, 101, 120, 116, 34, 58, 32, 34, 104, 105, 34, 44, 32, 34, 108, 97,
           110, 103, 117, 97, 103, 101, 34, 58, 32, 34, 101, 110, 34, 44, 32, 34, 116, 105,
           109, 101, 115, 116, 97, 109, 112, 34, 58, 32, 34, 50, 48, 50, 52, 45, 48, 49,
           45, 48, 49, 84, 48, 48, 58, 48, 48, 58, 48, 48, 34, 44, 32, 34, 109, 111,
           100, 101, 108, 34, 58, 32, 34, 98, 97, 115, 101, 34, 44, 32, 34, 100, 117, 114,
           97, 116, 105, 111, 110, 34, 58, 32, 50, 46, 48, 125] =
   Inr
     [123, 34, 116, 101, 120, 116, 34, 58, 32, 34, 104, 105, 34, 44, 32, 34, 108, 97,
           110, 103, 117, 97, 103, 101, 34, 58, 32, 34, 101, 110, 34, 44, 32, 34, 116, 105,
           109, 101, 115, 116, 97, 109, 112, 34, 58, 32, 34, 50, 48, 50, 52, 45, 48, 49,
           45, 48, 49, 84, 48, 48, 58, 48, 48, 58, 48, 48, 34, 44, 32, 34, 109, 111,
           100, 101, 108, 34, 58, 32, 34, 98, 97, 115, 101, 34, 44, 32, 34, 100, 117, 114,
           97, 116, 105, 111, 110, 34, 58, 32, 50, 46, 48, 125]"
  by (simp add: utf8_char_def)

lemma sample_base64:
  "b64encode
     [123, 34, 116, 101, 120, 116, 34, 58, 32, 34, 104, 105, 34, 44, 32, 34, 108, 97,
           110, 103, 117, 97, 103, 101, 34, 58, 32, 34, 101, 110, 34, 44, 32, 34, 116, 105,
           109, 101, 115, 116, 97, 109, 112, 34, 58, 32, 34, 50, 48, 50, 52, 45, 48, 49,
           45, 48, 49, 84, 48, 48, 58, 48, 48, 58, 48, 48, 34, 44, 32, 34, 109, 111,
           100, 101, 108, 34, 58, 32, 34, 98, 97, 115, 101, 34, 44, 32, 34, 100, 117, 114,
           97, 116, 105, 111, 110, 34, 58, 32, 50, 46, 48, 125] =
   U ''eyJ0ZXh0IjogImhpIiwgImxhbmd1YWdlIjogImVuIiwgInRpbWVzdGFtcCI6ICIyMDI0'' @
   U ''LTAxLTAxVDAwOjAwOjAwIiwgIm1vZGVsIjogImJhc2UiLCAiZHVyYXRpb24iOiAyLjB9''"
  by (simp add: b64_char_def U_def)



section \<open>Proofs: the batch entry point\<close>

lemma body_load_fails:
  "b_load_model env (a_model a) = Some e \<Longrightarrow> transcribe_video_body env a = (ev_load a, Inl e)"
  by (simp add: transcribe_video_body_def ev_load_def)


lemma body_transcribe_fails:
  "b_load_model env (a_model a) = None \<Longrightarrow> b_load_audio env (a_video_path a) = Inr n \<Longrightarrow>
   b_transcribe env = Inl e \<Longrightarrow> transcribe_video_body env a = (ev_call a n, Inl e)"
  by (simp add: transcribe_video_body_def ev_load_def ev_audio_def ev_call_def)

lemma body_returns:
  "b_load_model env (a_model a) = None \<Longrightarrow> b_load_audio env (a_video_path a) = Inr n \<Longrightarrow>
   b_transcribe env = Inr result \<Longrightarrow>
   transcribe_video_body env a =
     (ev_call a n @ fst (after_transcribe env a (of_nat n / 16000) result),
      Inr (snd (after_transcribe env a (of_nat n / 16000) result)))"
  by (cases "after_transcribe env a (of_nat n / 16000) result")
    (simp add: transcribe_video_body_def ev_load_def ev_audio_def ev_call_def)

lemma transcribe_video_raises:
  "transcribe_video_body env a = (ev, Inl e) \<Longrightarrow>
   transcribe_video env a =
     (ev @ [Log_error (U ''Error during transcription: '' @ exn_message e),
            Progress 0 (Error (exn_message e))], Inl e)"
  by (simp add: transcribe_video_def)

lemma transcribe_video_returns:
  "transcribe_video_body env a = (ev, Inr r) \<Longrightarrow> transcribe_video env a = (ev, Inr r)"
  by (simp add: transcribe_video_def)

lemma process_raises:
  "transcribe_video env a = (ev, Inl e) \<Longrightarrow>
   process env a = (startup env @ ev @ [Log_error (U ''Transcription failed: '' @ exn_message e)], 1)"
  by (simp add: process_def main_def)

lemma process_returns:
  "transcribe_video env a = (ev, Inr r) \<Longrightarrow> process env a = (startup env @ ev, 0)"
  by (simp add: process_def main_def)

text \<open>
  Claim C7. In batch mode, when loading the model raises, or the model is loaded, the
  audio is read and the inference call raises, \<open>transcribe_video\<close> ends by logging the
  error and printing a record with progress 0 and the status \<open>Error: \<close> followed by the
  message, raises the same exception again, prints no payload line, and the process
  exits with status 1. When \<open>transcribe_video\<close> returns, the process exits with status 0.
\<close>

theorem batch_failure_reported:
  "((b_load_model env (a_model a) = Some e \<or>
     (b_load_model env (a_model a) = None \<and> (\<exists>n. b_load_audio env (a_video_path a) = Inr n) \<and>
      b_transcribe env = Inl e)) \<longrightarrow>
      snd (transcribe_video env a) = Inl e \<and>
      (\<exists>ev. fst (transcribe_video env a) =
         ev @ [Log_error (U ''Error during transcription: '' @ exn_message e),
               Progress 0 (Error (exn_message e))]) \<and>
      is_error_status (Error (exn_message e)) \<and>
      filter is_payload (fst (process env a)) = [] \<and>
      snd (process env a) = 1) \<and>
   ((\<exists>r. snd (transcribe_video env a) = Inr r) \<longrightarrow> snd (process env a) = 0)"
proof (intro conjI impI)
  assume f: "b_load_model env (a_model a) = Some e \<or>
     (b_load_model env (a_model a) = None \<and> (\<exists>n. b_load_audio env (a_video_path a) = Inr n) \<and>
      b_transcribe env = Inl e)"
  then obtain ev where b: "transcribe_video_body env a = (ev, Inl e)"
    and np: "filter is_payload ev = []"
    using body_load_fails body_transcribe_fails
    by (fastforce simp: ev_load_def ev_audio_def ev_call_def)
  note t = transcribe_video_raises [OF b]
  note p = process_raises [OF t]
  show "snd (transcribe_video env a) = Inl e" by (simp add: t)
  show "\<exists>ev. fst (transcribe_video env a) =
         ev @ [Log_error (U ''Error during transcription: '' @ exn_message e),
               Progress 0 (Error (exn_message e))]"
    by (simp add: t)
  show "is_error_status (Error (exn_message e))" by simp
  show "filter is_payload (fst (process env a)) = []"
    by (simp add: p np startup_def split: option.split prod.split)
  show "snd (process env a) = 1" by (simp add: p)
next
  assume "\<exists>r. snd (transcribe_video env a) = Inr r"
  then obtain ev r where "transcribe_video env a = (ev, Inr r)" by (metis prod.collapse)
  then show "snd (process env a) = 0" by (simp add: process_returns)
qed

lemmas sample_eval =
  sample_env_def sample_args_def sample_load_model_def sample_load_audio_def
  sample_file_exists_def sample_write_file_def env_inference_fails_def args_missing_file_def
  env_disk_full_def write_file_disk_full_def args_checkpoint_def env_checkpoint_def
  write_file_unencodable_def

lemma sample_multiplier: "multiplier (U ''base'') = 2 / 10"
  by (simp add: multiplier_def time_multipliers_def U_def)

theorem batch_failure_reported_witness:
  "fst (process env_inference_fails sample_args) =
     [Progress 5 (Using_device (U ''cpu'')),
      Progress 10 (Starting (U ''base'')), Progress 10 Loading_model, Call_load_model (U ''base''),
      Progress 30 Model_loaded, Call_load_audio (U ''a.mp4''),
      Progress 50 (Audio_loaded 2 (4 / 10)), Thread_start, Call_transcribe,
      Log_error (U ''Error during transcription: '' @ U ''CUDA out of memory''),
      Progress 0 (Error (U ''CUDA out of memory'')),
      Log_error (U ''Transcription failed: '' @ U ''CUDA out of memory'')] \<and>
   snd (process env_inference_fails sample_args) = 1"
proof -
  have l: "b_load_model env_inference_fails (a_model sample_args) = None"
    by (simp add: sample_eval)
  have a: "b_load_audio env_inference_fails (a_video_path sample_args) = Inr 32000"
    by (simp add: sample_eval)
  have t: "b_transcribe env_inference_fails = Inl (Exn (U ''CUDA out of memory''))"
    by (simp add: sample_eval)
  have b: "transcribe_video_body env_inference_fails sample_args =
      (ev_call sample_args 32000, Inl (Exn (U ''CUDA out of memory'')))"
    using l a t by (rule body_transcribe_fails)
  have s: "startup env_inference_fails = [Progress 5 (Using_device (U ''cpu''))]"
    by (simp add: startup_def sample_eval)
  have m: "multiplier (a_model sample_args) = 2 / 10"
    by (simp add: sample_args_def sample_multiplier)
  have 1: "fst (process env_inference_fails sample_args) =
     [Progress 5 (Using_device (U ''cpu'')),
      Progress 10 (Starting (U ''base'')), Progress 10 Loading_model, Call_load_model (U ''base''),
      Progress 30 Model_loaded, Call_load_audio (U ''a.mp4''),
      Progress 50 (Audio_loaded 2 (4 / 10)), Thread_start, Call_transcribe,
      Log_error (U ''Error during transcription: '' @ U ''CUDA out of memory''),
      Progress 0 (Error (U ''CUDA out of memory'')),
      Log_error (U ''Transcription failed: '' @ U ''CUDA out of memory'')]"
    by (simp add: process_raises [OF transcribe_video_raises [OF b]] s ev_call_def ev_audio_def
        ev_load_def m) (simp add: sample_args_def)
  have 2: "snd (process env_inference_fails sample_args) = 1"
    using batch_failure_reported [of env_inference_fails sample_args "Exn (U ''CUDA out of memory'')"]
      l a t by simp
  from 1 2 show ?thesis by (rule conjI)
qed

section \<open>Proofs: a failed write of the transcription file\<close>

lemma sample_delivery_line:
  "delivery_line repr_sample sample_result =
     Inr (delimiter @
       (U ''eyJ0ZXh0IjogImhpIiwgImxhbmd1YWdlIjogImVuIiwgInRpbWVzdGFtcCI6ICIyMDI0'' @
        U ''LTAxLTAxVDAwOjAwOjAwIiwgIm1vZGVsIjogImJhc2UiLCAiZHVyYXRpb24iOiAyLjB9'') @ delimiter)"
  by (simp only: delivery_line_def Let_def sample_json_text sample_utf8 sample_base64 sum.case)

lemma sample_sanitized: "sanitize_for_json nfkd_latin1 (raw_text \<lparr>w_text = Some (U '' hi ''), w_language = Some (U ''en'')\<rparr>) = U ''hi''"
  by (simp add: raw_text_def sanitize_eval)

lemma sample_raw_text: "raw_text \<lparr>w_text = Some (U '' hi ''), w_language = Some (U ''en'')\<rparr> \<noteq> []"
  by (simp add: raw_text_def strip_def lstrip_def rstrip_def U_def isspace_def)


lemma no_payload_before_send:
  "filter is_payload (startup env) = []" "filter is_payload (ev_call a n) = []"
  by (simp_all add: startup_def ev_call_def ev_audio_def ev_load_def split: option.split prod.split)

lemma after_transcribe_write_fails:
  assumes ne: "raw_text res \<noteq> []"
    and fr: "fr = make_final_result env a d res (sanitize_for_json (b_nfkd env) (raw_text res))"
    and wf: "b_write_file env fr = Inl e"
  shows "after_transcribe env a d (Some res) =
    ([Progress 90 Finalizing, File_write,
      Log_error (U ''Error saving transcription file: '' @ exn_message e),
      Progress 0 (Error_saving_file (exn_message e))] @ send_block env fr, Some fr)"
proof -
  have "save_block env fr =
    ([File_write, Log_error (U ''Error saving transcription file: '' @ exn_message e),
      Progress 0 (Error_saving_file (exn_message e))], fr)"
    by (simp add: save_block_def wf)
  then show ?thesis using ne by (simp add: after_transcribe_def Let_def fr [symmetric])
qed

lemma process_write_fails:
  assumes load: "b_load_model env (a_model a) = None"
    and audio: "b_load_audio env (a_video_path a) = Inr n"
    and tr: "b_transcribe env = Inr (Some res)"
    and ne: "raw_text res \<noteq> []"
    and fr: "fr = make_final_result env a (of_nat n / 16000) res
               (sanitize_for_json (b_nfkd env) (raw_text res))"
    and wf: "b_write_file env fr = Inl e"
  shows "process env a =
      (startup env @ ev_call a n @
       [Progress 90 Finalizing, File_write,
        Log_error (U ''Error saving transcription file: '' @ exn_message e),
        Progress 0 (Error_saving_file (exn_message e))] @ send_block env fr, 0)"
proof -
  let ?saving = "[Progress 90 Finalizing, File_write,
       Log_error (U ''Error saving transcription file: '' @ exn_message e),
       Progress 0 (Error_saving_file (exn_message e))]"
  have at: "after_transcribe env a (of_nat n / 16000) (Some res) = (?saving @ send_block env fr, Some fr)"
    using ne fr wf by (rule after_transcribe_write_fails)
  have "transcribe_video_body env a = (ev_call a n @ ?saving @ send_block env fr, Inr (Some fr))"
    using body_returns [OF load audio tr] by (simp add: at)
  then have "transcribe_video env a = (ev_call a n @ ?saving @ send_block env fr, Inr (Some fr))"
    by (rule transcribe_video_returns)
  then show ?thesis by (rule process_returns)
qed

text \<open>
  Claim C9, as amended. In batch mode, when the run reaches the block that writes the
  transcription file and that block raises, the failure is logged and reported by a
  record with progress 0 and the status \<open>Error saving file: \<close> followed by the message, and
  the send block follows at once, with the result as it was before the write. If the
  delivery line can be built, it is printed exactly once, as the last line of the run;
  if building it raises, no payload is printed and the run ends with the record
  \<open>Error formatting result: \<close> followed by the message. The exit status is 0 either way.
\<close>

theorem write_failure_then_delivery:
  assumes load: "b_load_model env (a_model a) = None"
    and audio: "b_load_audio env (a_video_path a) = Inr n"
    and tr: "b_transcribe env = Inr (Some res)"
    and ne: "raw_text res \<noteq> []"
    and fr: "fr = make_final_result env a (of_nat n / 16000) res
               (sanitize_for_json (b_nfkd env) (raw_text res))"
    and wf: "b_write_file env fr = Inl e"
  shows "fst (process env a) =
      startup env @ ev_call a n @
      [Progress 90 Finalizing, File_write,
       Log_error (U ''Error saving transcription file: '' @ exn_message e),
       Progress 0 (Error_saving_file (exn_message e))] @ send_block env fr \<and>
    snd (process env a) = 0 \<and>
    (\<forall>line. delivery_line (b_float_repr env) fr = Inr line \<longrightarrow>
       filter is_payload (fst (process env a)) = [Payload line] \<and>
       last (fst (process env a)) = Payload line) \<and>
    (\<forall>e'. delivery_line (b_float_repr env) fr = Inl e' \<longrightarrow>
       filter is_payload (fst (process env a)) = [] \<and>
       last (fst (process env a)) = Progress 0 (Error_formatting_result (exn_message e')))"
proof -
  let ?saving = "[Progress 90 Finalizing, File_write,
       Log_error (U ''Error saving transcription file: '' @ exn_message e),
       Progress 0 (Error_saving_file (exn_message e))]"
  have p: "process env a = (startup env @ ev_call a n @ ?saving @ send_block env fr, 0)"
    using load audio tr ne fr wf by (rule process_write_fails)
  have 1: "fst (process env a) = startup env @ ev_call a n @ ?saving @ send_block env fr"
    by (simp add: p)
  have 2: "snd (process env a) = 0" by (simp add: p)
  have 3: "filter is_payload (fst (process env a)) = [Payload line] \<and>
       last (fst (process env a)) = Payload line"
    if "delivery_line (b_float_repr env) fr = Inr line" for line
    using that by (simp add: 1 no_payload_before_send send_block_def)
  have 4: "filter is_payload (fst (process env a)) = [] \<and>
       last (fst (process env a)) = Progress 0 (Error_formatting_result (exn_message e'))"
    if "delivery_line (b_float_repr env) fr = Inl e'" for e'
    using that by (simp add: 1 no_payload_before_send send_block_def)
  from 1 2 3 4 show ?thesis by blast
qed


lemma sample_run_reaches_save:
  "b_load_model env_disk_full (a_model sample_args) = None"
  "b_load_audio env_disk_full (a_video_path sample_args) = Inr 32000"
  "b_transcribe env_disk_full = Inr (Some \<lparr>w_text = Some (U '' hi ''), w_language = Some (U ''en'')\<rparr>)"
  "b_load_model env_checkpoint (a_model args_checkpoint) = None"
  "b_load_audio env_checkpoint (a_video_path args_checkpoint) = Inr 32000"
  "b_transcribe env_checkpoint = Inr (Some \<lparr>w_text = Some (U '' hi ''), w_language = Some (U ''en'')\<rparr>)"
  by (simp_all add: sample_eval)

lemma sample_final_results:
  "sample_result = make_final_result env_disk_full sample_args (of_nat 32000 / 16000)
     \<lparr>w_text = Some (U '' hi ''), w_language = Some (U ''en'')\<rparr>
     (sanitize_for_json (b_nfkd env_disk_full)
        (raw_text \<lparr>w_text = Some (U '' hi ''), w_language = Some (U ''en'')\<rparr>))"
  "sample_result\<lparr>fr_model := U ''caf'' @ [56553] @ U ''.pt''\<rparr> =
   make_final_result env_checkpoint args_checkpoint (of_nat 32000 / 16000)
     \<lparr>w_text = Some (U '' hi ''), w_language = Some (U ''en'')\<rparr>
     (sanitize_for_json (b_nfkd env_checkpoint)
        (raw_text \<lparr>w_text = Some (U '' hi ''), w_language = Some (U ''en'')\<rparr>))"
proof -
  have n: "b_nfkd env_disk_full = nfkd_latin1" "b_nfkd env_checkpoint = nfkd_latin1"
    by (simp_all add: sample_eval)
  show "sample_result = make_final_result env_disk_full sample_args (of_nat 32000 / 16000)
     \<lparr>w_text = Some (U '' hi ''), w_language = Some (U ''en'')\<rparr>
     (sanitize_for_json (b_nfkd env_disk_full)
        (raw_text \<lparr>w_text = Some (U '' hi ''), w_language = Some (U ''en'')\<rparr>))"
    unfolding n sample_sanitized
    by (simp add: make_final_result_def sample_result_def sample_eval)
  show "sample_result\<lparr>fr_model := U ''caf'' @ [56553] @ U ''.pt''\<rparr> =
   make_final_result env_checkpoint args_checkpoint (of_nat 32000 / 16000)
     \<lparr>w_text = Some (U '' hi ''), w_language = Some (U ''en'')\<rparr>
     (sanitize_for_json (b_nfkd env_checkpoint)
        (raw_text \<lparr>w_text = Some (U '' hi ''), w_language = Some (U ''en'')\<rparr>))"
    unfolding n sample_sanitized
    by (simp add: make_final_result_def sample_result_def sample_eval)
qed

theorem write_failure_then_delivery_witness:
  "filter is_payload (fst (process env_disk_full sample_args)) =
     [Payload (delimiter @
       (U ''eyJ0ZXh0IjogImhpIiwgImxhbmd1YWdlIjogImVuIiwgInRpbWVzdGFtcCI6ICIyMDI0'' @
        U ''LTAxLTAxVDAwOjAwOjAwIiwgIm1vZGVsIjogImJhc2UiLCAiZHVyYXRpb24iOiAyLjB9'') @ delimiter)] \<and>
   snd (process env_disk_full sample_args) = 0"
proof -
  have wf: "b_write_file env_disk_full sample_result = Inl (Exn (U ''No space left on device''))"
    by (simp add: sample_eval)
  have d: "delivery_line (b_float_repr env_disk_full) sample_result =
     Inr (delimiter @
       (U ''eyJ0ZXh0IjogImhpIiwgImxhbmd1YWdlIjogImVuIiwgInRpbWVzdGFtcCI6ICIyMDI0'' @
        U ''LTAxLTAxVDAwOjAwOjAwIiwgIm1vZGVsIjogImJhc2UiLCAiZHVyYXRpb24iOiAyLjB9'') @ delimiter)"
    using sample_delivery_line by (simp add: sample_eval)
  note t = write_failure_then_delivery [OF sample_run_reaches_save(1-3) sample_raw_text
      sample_final_results(1) wf]
  from t d show ?thesis by blast
qed

text \<open>
  A failed write is not always followed by a delivery: in the run with the checkpoint
  name that UTF-8 cannot encode, the write fails, the failure is reported, and the send
  block reports its own failure instead of printing a payload.
\<close>

theorem write_failure_without_delivery:
  "Progress 0 (Error_saving_file (U ''surrogates not allowed'')) \<in>
     set (fst (process env_checkpoint args_checkpoint)) \<and>
   filter is_payload (fst (process env_checkpoint args_checkpoint)) = []"
proof -
  let ?fr = "sample_result\<lparr>fr_model := U ''caf'' @ [56553] @ U ''.pt''\<rparr>"
  have wf: "b_write_file env_checkpoint ?fr = Inl UnicodeEncodeError"
    by (simp add: sample_eval)
  have "56553 \<in> set (json_dumps repr_sample ?fr)"
    by (simp add: json_dumps_def json_string_def json_escape_char_def sample_result_def)
  moreover have "utf8_char 56553 = None" by (simp add: utf8_char_def)
  ultimately have "utf8_encode (json_dumps repr_sample ?fr) = Inl UnicodeEncodeError"
    by (rule utf8_encode_fails)
  then have d: "delivery_line (b_float_repr env_checkpoint) ?fr = Inl UnicodeEncodeError"
    by (simp add: delivery_line_def sample_eval)
  have p: "process env_checkpoint args_checkpoint =
      (startup env_checkpoint @ ev_call args_checkpoint 32000 @
       [Progress 90 Finalizing, File_write,
        Log_error (U ''Error saving transcription file: '' @ exn_message UnicodeEncodeError),
        Progress 0 (Error_saving_file (exn_message UnicodeEncodeError))] @
       send_block env_checkpoint ?fr, 0)"
    using sample_run_reaches_save(4-6) sample_raw_text sample_final_results(2) wf
    by (rule process_write_fails)
  have m: "exn_message UnicodeEncodeError = U ''surrogates not allowed''"
    by (simp add: UnicodeEncodeError_def)
  have sb: "send_block env_checkpoint ?fr =
      [Log_error (U ''Error formatting result: '' @ exn_message UnicodeEncodeError),
       Progress 0 (Error_formatting_result (exn_message UnicodeEncodeError))]"
    by (simp only: send_block_def d sum.case)
  show ?thesis
    unfolding p sb by (simp add: m no_payload_before_send)
qed

section \<open>Proofs: an input path that does not exist\<close>








end
